theory Spec2Isabelle
  imports Complex_Main "HOL-Library.Sublist"
begin

section \<open>JavaScript strings and values\<close>

text \<open>
  A JavaScript string is a sequence of UTF-16 code units; a code unit is modelled by its
  numeric value. \<open>str\<close> embeds an ASCII literal. The relational operators compare
  strings code unit by code unit (ECMAScript IsLessThan on two strings), a proper prefix
  being the smaller string.
\<close>

type_synonym jsstring = "nat list"

definition str :: "string \<Rightarrow> jsstring" where
  "str s = map of_char s"

fun js_less :: "jsstring \<Rightarrow> jsstring \<Rightarrow> bool" where
  "js_less [] [] = False"
| "js_less [] (y # ys) = True"
| "js_less (x # xs) [] = False"
| "js_less (x # xs) (y # ys) =
     (if x < y then True else if y < x then False else js_less xs ys)"

text \<open>\<open>a >= b\<close> on strings is \<open>!(a < b)\<close>.\<close>

definition js_ge :: "jsstring \<Rightarrow> jsstring \<Rightarrow> bool" where
  "js_ge a b = (\<not> js_less a b)"

text \<open>
  The values a parsed JSON document holds. Numbers are the finite ones. An array or an
  object is kept only as far as this program can observe it: it is truthy, it has no
  \<open>toLowerCase\<close> method, and the \<open>Date\<close> constructor sees the string its
  \<open>toString\<close> yields, which is the argument of \<open>JObject\<close>. \<open>JUndefined\<close> is
  what reading a missing property yields.
\<close>

datatype jsval =
    JUndefined
  | JNull
  | JBool bool
  | JNum rat
  | JStr jsstring
  | JObject jsstring

fun truthy :: "jsval \<Rightarrow> bool" where
  "truthy JUndefined = False"
| "truthy JNull = False"
| "truthy (JBool b) = b"
| "truthy (JNum r) = (r \<noteq> 0)"
| "truthy (JStr s) = (s \<noteq> [])"
| "truthy (JObject s) = True"

text \<open>The operator \<open>a || b\<close>.\<close>

definition js_or :: "jsval \<Rightarrow> jsval \<Rightarrow> jsval" where
  "js_or a b = (if truthy a then a else b)"

datatype error =
    ApiError nat
  | FetchRejected
  | JsonSyntaxError
  | TypeError

section \<open>Time values (ECMAScript, Date objects)\<close>

text \<open>
  A time value is a number of milliseconds since the epoch, or NaN (\<open>None\<close>). The
  functions below are the abstract operations of the language specification, on days and
  milliseconds as integers.
\<close>

definition msPerDay :: int where "msPerDay = 86400000"
definition msPerHour :: int where "msPerHour = 3600000"
definition msPerMinute :: int where "msPerMinute = 60000"

definition Day :: "int \<Rightarrow> int" where
  "Day t = t div msPerDay"

definition DaysInYear :: "int \<Rightarrow> int" where
  "DaysInYear y =
     (if y mod 4 \<noteq> 0 then 365
      else if y mod 100 \<noteq> 0 then 366
      else if y mod 400 \<noteq> 0 then 365
      else 366)"

definition DayFromYear :: "int \<Rightarrow> int" where
  "DayFromYear y =
     365 * (y - 1970) + (y - 1969) div 4 - (y - 1901) div 100 + (y - 1601) div 400"

text \<open>
  \<open>YearFromTime t\<close> is the largest year whose first day is not after \<open>t\<close>. It is
  computed by stepping up from a year that starts no later than the day of \<open>t\<close>.
\<close>

function year_search :: "int \<Rightarrow> int \<Rightarrow> int" where
  "year_search d y = (if DayFromYear (y + 1) \<le> d then year_search d (y + 1) else y)"
  by pat_completeness auto
termination
  by (relation "measure (\<lambda>(d, y). nat (d - DayFromYear y))")
     (auto simp: DayFromYear_def)

declare year_search.simps [simp del]

definition YearFromDay :: "int \<Rightarrow> int" where
  "YearFromDay d =
     year_search d (1970 + (if 0 \<le> d then d div 366 else d div 365))"

definition YearFromTime :: "int \<Rightarrow> int" where
  "YearFromTime t = YearFromDay (Day t)"

definition InLeapYear :: "int \<Rightarrow> int" where
  "InLeapYear t = (if DaysInYear (YearFromTime t) = 365 then 0 else 1)"

definition DayWithinYear :: "int \<Rightarrow> int" where
  "DayWithinYear t = Day t - DayFromYear (YearFromTime t)"

definition MonthFromTime :: "int \<Rightarrow> int" where
  "MonthFromTime t =
     (let d = DayWithinYear t; l = InLeapYear t in
      if d < 31 then 0
      else if d < 59 + l then 1
      else if d < 90 + l then 2
      else if d < 120 + l then 3
      else if d < 151 + l then 4
      else if d < 181 + l then 5
      else if d < 212 + l then 6
      else if d < 243 + l then 7
      else if d < 273 + l then 8
      else if d < 304 + l then 9
      else if d < 334 + l then 10
      else 11)"

definition DateFromTime :: "int \<Rightarrow> int" where
  "DateFromTime t =
     (let d = DayWithinYear t; l = InLeapYear t; m = MonthFromTime t in
      if m = 0 then d + 1
      else if m = 1 then d - 30
      else if m = 2 then d - 58 - l
      else if m = 3 then d - 89 - l
      else if m = 4 then d - 119 - l
      else if m = 5 then d - 150 - l
      else if m = 6 then d - 180 - l
      else if m = 7 then d - 211 - l
      else if m = 8 then d - 242 - l
      else if m = 9 then d - 272 - l
      else if m = 10 then d - 303 - l
      else d - 333 - l)"

definition HourFromTime :: "int \<Rightarrow> int" where
  "HourFromTime t = (t div msPerHour) mod 24"

definition MinFromTime :: "int \<Rightarrow> int" where
  "MinFromTime t = (t div msPerMinute) mod 60"

text \<open>
  \<open>MakeDay year month date\<close>: the day number of the given date, where the month may
  lie outside \<open>0..11\<close> and then carries into the year.
\<close>

definition DaysBeforeMonth :: "int \<Rightarrow> int \<Rightarrow> int" where
  "DaysBeforeMonth y mn =
     (let l = (if DaysInYear y = 365 then 0 else 1) in
      if mn = 0 then 0
      else if mn = 1 then 31
      else if mn = 2 then 59 + l
      else if mn = 3 then 90 + l
      else if mn = 4 then 120 + l
      else if mn = 5 then 151 + l
      else if mn = 6 then 181 + l
      else if mn = 7 then 212 + l
      else if mn = 8 then 243 + l
      else if mn = 9 then 273 + l
      else if mn = 10 then 304 + l
      else 334 + l)"

definition MakeDay :: "int \<Rightarrow> int \<Rightarrow> int \<Rightarrow> int" where
  "MakeDay year month dt =
     (let ym = year + month div 12; mn = month mod 12 in
      DayFromYear ym + DaysBeforeMonth ym mn + dt - 1)"

definition MakeTime :: "int \<Rightarrow> int \<Rightarrow> int \<Rightarrow> int \<Rightarrow> int" where
  "MakeTime h m s ms = h * msPerHour + m * msPerMinute + s * 1000 + ms"

definition MakeDate :: "int \<Rightarrow> int \<Rightarrow> int" where
  "MakeDate day tm = day * msPerDay + tm"

definition TimeClip :: "int \<Rightarrow> int option" where
  "TimeClip t = (if \<bar>t\<bar> > 8640000000000000 then None else Some t)"

text \<open>\<open>TimeClip (ToNumber v)\<close> for a finite number: out of range is NaN, a fraction is
  truncated towards zero.\<close>

definition TimeClipNumber :: "rat \<Rightarrow> int option" where
  "TimeClipNumber r =
     (if \<bar>r\<bar> > 8640000000000000 then None
      else Some (if 0 \<le> r then \<lfloor>r\<rfloor> else \<lceil>r\<rceil>))"

section \<open>The runtime the script runs on\<close>

text \<open>
  What the script takes from its runtime and not from its own text: the date parser
  (\<open>Date.parse\<close>, NaN being \<open>None\<close>), the offset from UTC of the zone
  \<open>Europe/London\<close> at an instant (milliseconds; the time zone database), the local
  time zone adjustment of the machine (\<open>LocalTZA t isUTC\<close> of the language
  specification), and the Unicode lower-case conversion of strings that are not pure ASCII.
\<close>

record runtime =
  Date_parse :: "jsstring \<Rightarrow> int option"
  europe_london :: "int \<Rightarrow> int"
  LocalTZA :: "int \<Rightarrow> bool \<Rightarrow> int"
  unicode_lower :: "jsstring \<Rightarrow> jsstring"

text \<open>\<open>new Date(value)\<close>: a string (or the string of an object) is parsed, any other
  value is converted to a number.\<close>

fun new_Date :: "runtime \<Rightarrow> jsval \<Rightarrow> int option" where
  "new_Date rt (JStr s) = Date_parse rt s"
| "new_Date rt (JObject s) = Date_parse rt s"
| "new_Date rt JUndefined = None"
| "new_Date rt JNull = Some 0"
| "new_Date rt (JBool b) = Some (if b then 1 else 0)"
| "new_Date rt (JNum r) = TimeClipNumber r"

text \<open>\<open>new Date(year, month, date)\<close>: local midnight of that day, as an instant.\<close>

definition new_Date_ymd :: "runtime \<Rightarrow> int \<Rightarrow> int \<Rightarrow> int \<Rightarrow> int option" where
  "new_Date_ymd rt year month dt =
     (let yr = (if 0 \<le> year \<and> year \<le> 99 then 1900 + year else year);
          finalDate = MakeDate (MakeDay yr month dt) (MakeTime 0 0 0 0)
      in TimeClip (finalDate - LocalTZA rt finalDate False))"

definition getFullYear :: "runtime \<Rightarrow> int \<Rightarrow> int" where
  "getFullYear rt t = YearFromTime (t + LocalTZA rt t True)"

definition getMonth :: "runtime \<Rightarrow> int \<Rightarrow> int" where
  "getMonth rt t = MonthFromTime (t + LocalTZA rt t True)"

subsection \<open>Formatting\<close>

fun decimal :: "nat \<Rightarrow> jsstring" where
  "decimal n = (if n < 10 then [48 + n] else decimal (n div 10) @ [48 + n mod 10])"

declare decimal.simps [simp del]

definition two_digit :: "int \<Rightarrow> jsstring" where
  "two_digit n = [48 + nat (n div 10), 48 + nat (n mod 10)]"

text \<open>The pattern \<open>y-MM-dd\<close> of the locale \<open>en-CA\<close>, on a local time: the year of the
  era without padding, month and day with two digits.\<close>

definition format_en_CA :: "int \<Rightarrow> jsstring" where
  "format_en_CA lt =
     (let y = YearFromTime lt in
      decimal (nat (if 0 < y then y else 1 - y)) @ str ''-'' @
      two_digit (MonthFromTime lt + 1) @ str ''-'' @ two_digit (DateFromTime lt))"

text \<open>The pattern \<open>HH:mm\<close> (\<open>en-GB\<close>, two-digit hour and minute, \<open>hour12: false\<close>).\<close>

definition format_en_GB :: "int \<Rightarrow> jsstring" where
  "format_en_GB lt = two_digit (HourFromTime lt) @ str '':'' @ two_digit (MinFromTime lt)"

text \<open>\<open>d.toLocaleDateString('en-CA', { timeZone: 'Europe/London' })\<close>\<close>

definition toLocaleDateString :: "runtime \<Rightarrow> int option \<Rightarrow> jsstring" where
  "toLocaleDateString rt d =
     (case d of
        None \<Rightarrow> str ''Invalid Date''
      | Some t \<Rightarrow> format_en_CA (t + europe_london rt t))"

text \<open>\<open>d.toLocaleTimeString('en-GB', { hour: '2-digit', minute: '2-digit', hour12: false,
  timeZone: 'Europe/London' })\<close>\<close>

definition toLocaleTimeString :: "runtime \<Rightarrow> int option \<Rightarrow> jsstring" where
  "toLocaleTimeString rt d =
     (case d of
        None \<Rightarrow> str ''Invalid Date''
      | Some t \<Rightarrow> format_en_GB (t + europe_london rt t))"

subsection \<open>Lower case\<close>

definition ascii_lower :: "nat \<Rightarrow> nat" where
  "ascii_lower c = (if 65 \<le> c \<and> c \<le> 90 then c + 32 else c)"

definition toLowerCase :: "runtime \<Rightarrow> jsstring \<Rightarrow> jsstring" where
  "toLowerCase rt s =
     (if list_all (\<lambda>c. c < 128) s then map ascii_lower s else unicode_lower rt s)"

text \<open>The call \<open>v.toLowerCase()\<close> on a value: only a string has the method.\<close>

fun call_toLowerCase :: "runtime \<Rightarrow> jsval \<Rightarrow> error + jsstring" where
  "call_toLowerCase rt (JStr s) = Inr (toLowerCase rt s)"
| "call_toLowerCase rt v = Inl TypeError"

section \<open>The script: records and their transformation\<close>

record airtable_record =
  record_id :: jsstring
  rec_fields :: "jsstring \<rightharpoonup> jsval"

text \<open>\<open>rec_fields\<close> is the property \<open>fields\<close> of a record. Reading a property of the
  field bag: a missing one is \<open>undefined\<close>.\<close>

definition lookup :: "(jsstring \<rightharpoonup> jsval) \<Rightarrow> string \<Rightarrow> jsval" where
  "lookup f k = (case f (str k) of None \<Rightarrow> JUndefined | Some v \<Rightarrow> v)"

record event =
  date :: jsstring
  title :: jsval
  venue :: jsval
  time :: jsstring
  type :: jsstring
  url :: jsval
  description :: jsstring

text \<open>The three characters that stand between the two placeholders of the template
  literal of \<open>formatTime\<close> in the source file (there encoded as the bytes
  \<open>C3 A2\<close>, \<open>E2 82 AC\<close>, \<open>E2 80 9C\<close>).\<close>

definition range_separator :: jsstring where
  "range_separator = [0xE2, 0x20AC, 0x201C]"

definition formatTime :: "runtime \<Rightarrow> jsval \<Rightarrow> jsval \<Rightarrow> jsstring" where
  "formatTime rt startISO endISO =
     (let start = new_Date rt startISO;
          startTime = toLocaleTimeString rt start
      in if \<not> truthy endISO then startTime
         else let end_d = new_Date rt endISO;
                  endTime = toLocaleTimeString rt end_d
              in startTime @ range_separator @ endTime)"

definition formatDate :: "runtime \<Rightarrow> jsval \<Rightarrow> jsstring" where
  "formatDate rt isoString = toLocaleDateString rt (new_Date rt isoString)"

definition transformEvent :: "runtime \<Rightarrow> airtable_record \<Rightarrow> error + event" where
  "transformEvent rt record =
     (let fs = rec_fields record in
      case call_toLowerCase rt (js_or (lookup fs ''Type'') (JStr (str ''show''))) of
        Inl e \<Rightarrow> Inl e
      | Inr ty \<Rightarrow> Inr \<lparr>
          date = formatDate rt (lookup fs ''Start''),
          title = js_or (lookup fs ''Title'') (JStr []),
          venue = js_or (lookup fs ''Venue'') (JStr []),
          time = formatTime rt (lookup fs ''Start'') (lookup fs ''End''),
          type = ty,
          url = js_or (lookup fs ''Tickets URL'') (js_or (lookup fs ''Event URL'') (JStr [])),
          description = [] \<rparr>)"

section \<open>The script: fetching the pages\<close>

text \<open>
  A request as the fetcher builds it: the address before the query, the entries of the
  \<open>URLSearchParams\<close> in their order, and the \<open>Authorization\<close> header. A response
  is a rejected \<open>fetch\<close>, or a status with a body that is either not JSON or holds
  \<open>records\<close> and, when present, \<open>offset\<close>.
\<close>

record request =
  req_url :: jsstring
  req_params :: "(jsstring \<times> jsstring) list"
  req_authorization :: jsstring

datatype body =
    Malformed
  | Data "airtable_record list" "jsstring option"

datatype response =
    Rejected
  | Response nat body

definition response_ok :: "nat \<Rightarrow> bool" where
  "response_ok status = (200 \<le> status \<and> status \<le> 299)"

text \<open>The truth value of \<open>offset\<close>: \<open>null\<close> or \<open>undefined\<close> (\<open>None\<close>) or a string.\<close>

definition token_truthy :: "jsstring option \<Rightarrow> bool" where
  "token_truthy offset = (case offset of None \<Rightarrow> False | Some s \<Rightarrow> s \<noteq> [])"

definition TABLE_NAME :: jsstring where
  "TABLE_NAME = str ''Events''"

definition make_request :: "jsstring \<Rightarrow> jsstring \<Rightarrow> jsstring option \<Rightarrow> request" where
  "make_request api_key base_id offset =
     \<lparr> req_url = str ''https://api.airtable.com/v0/'' @ base_id @ str ''/'' @ TABLE_NAME,
       req_params =
         [(str ''filterByFormula'', str ''{Status} = '' @ [34] @ str ''Approved'' @ [34]),
          (str ''sort[0][field]'', str ''Start''),
          (str ''sort[0][direction]'', str ''asc'')] @
         (case offset of
            None \<Rightarrow> []
          | Some s \<Rightarrow> if s \<noteq> [] then [(str ''offset'', s)] else []),
       req_authorization = str ''Bearer '' @ api_key \<rparr>"

text \<open>
  The \<open>do ... while (offset)\<close> loop. The remote end is a transition function on a state
  of its own; the loop carries that state, the requests sent so far and the accumulator
  \<open>events\<close>. A remote end that hands out a token forever keeps the loop running: the
  result is then \<open>None\<close>.
\<close>

partial_function (option) fetch_pages ::
  "('srv \<Rightarrow> request \<Rightarrow> response \<times> 'srv) \<Rightarrow> jsstring \<Rightarrow> jsstring \<Rightarrow>
   'srv \<Rightarrow> request list \<Rightarrow> airtable_record list \<Rightarrow> jsstring option \<Rightarrow>
   ((error + airtable_record list) \<times> 'srv \<times> request list) option"
where
  "fetch_pages serve api_key base_id srv sent events offset =
     (let req = make_request api_key base_id offset in
      case serve srv req of
        (Rejected, srv') \<Rightarrow> Some (Inl FetchRejected, srv', sent @ [req])
      | (Response status b, srv') \<Rightarrow>
          if \<not> response_ok status then Some (Inl (ApiError status), srv', sent @ [req])
          else (case b of
                  Malformed \<Rightarrow> Some (Inl JsonSyntaxError, srv', sent @ [req])
                | Data records offset' \<Rightarrow>
                    if token_truthy offset'
                    then fetch_pages serve api_key base_id srv' (sent @ [req])
                           (events @ records) offset'
                    else Some (Inr (events @ records), srv', sent @ [req])))"

definition fetchApprovedEvents ::
  "('srv \<Rightarrow> request \<Rightarrow> response \<times> 'srv) \<Rightarrow> jsstring \<Rightarrow> jsstring \<Rightarrow> 'srv \<Rightarrow>
   ((error + airtable_record list) \<times> 'srv \<times> request list) option"
where
  "fetchApprovedEvents serve api_key base_id srv =
     fetch_pages serve api_key base_id srv [] [] None"

section \<open>The script: main and the top level\<close>

text \<open>\<open>records.map(transformEvent)\<close>: the first exception ends the mapping.\<close>

fun map_transformEvent :: "runtime \<Rightarrow> airtable_record list \<Rightarrow> error + event list" where
  "map_transformEvent rt [] = Inr []"
| "map_transformEvent rt (r # rs) =
     (case transformEvent rt r of
        Inl e \<Rightarrow> Inl e
      | Inr ev \<Rightarrow> (case map_transformEvent rt rs of
                     Inl e \<Rightarrow> Inl e
                   | Inr evs \<Rightarrow> Inr (ev # evs)))"

definition prevMonthStart :: "runtime \<Rightarrow> int \<Rightarrow> jsstring" where
  "prevMonthStart rt now =
     toLocaleDateString rt (new_Date_ymd rt (getFullYear rt now) (getMonth rt now - 1) 1)"

definition recentAndFutureEvents :: "runtime \<Rightarrow> int \<Rightarrow> event list \<Rightarrow> event list" where
  "recentAndFutureEvents rt now evs =
     filter (\<lambda>e. js_ge (date e) (prevMonthStart rt now)) evs"

text \<open>The envelope written to \<open>events.json\<close>; \<open>lastUpdated\<close> is kept as the instant
  whose ISO string the file holds.\<close>

record envelope =
  lastUpdated :: int
  events :: "event list"

text \<open>\<open>main\<close> reads the clock for the filter (\<open>now\<close>) and once more for
  \<open>lastUpdated\<close> (\<open>stamp\<close>). Its value is the envelope it writes, or the exception
  it is rejected with. The write of the file itself is taken to succeed.\<close>

definition main ::
  "runtime \<Rightarrow> ('srv \<Rightarrow> request \<Rightarrow> response \<times> 'srv) \<Rightarrow> jsstring \<Rightarrow> jsstring \<Rightarrow> 'srv \<Rightarrow>
   int \<Rightarrow> int \<Rightarrow> ((error + envelope) \<times> 'srv \<times> request list) option"
where
  "main rt serve api_key base_id srv now stamp =
     (case fetchApprovedEvents serve api_key base_id srv of
        None \<Rightarrow> None
      | Some (Inl e, srv', sent) \<Rightarrow> Some (Inl e, srv', sent)
      | Some (Inr records, srv', sent) \<Rightarrow>
          (case map_transformEvent rt records of
             Inl e \<Rightarrow> Some (Inl e, srv', sent)
           | Inr evs \<Rightarrow>
               Some (Inr \<lparr> lastUpdated = stamp,
                            events = recentAndFutureEvents rt now evs \<rparr>, srv', sent)))"

text \<open>
  The world around one run: the two environment values, the remote end, the two clock
  readings and the file \<open>events.json\<close> as it is before the run. The outcome: the exit
  status, what went to the error stream, the requests sent and the file after the run.
  The lines of \<open>console.log\<close> are not part of the model. In \<open>script\<close> the last case
  of the pair of environment values is never reached: both are truthy there.
\<close>

record 'srv world =
  AIRTABLE_API_KEY :: "jsstring option"
  AIRTABLE_BASE_ID :: "jsstring option"
  remote :: 'srv
  clock_now :: int
  clock_stamp :: int
  events_json :: "envelope option"

datatype diagnostic =
    MissingConfig
  | ExportFailed error

record 'srv outcome =
  exit_status :: nat
  error_stream :: "diagnostic list"
  requests :: "request list"
  events_json_after :: "envelope option"
  remote_after :: 'srv

definition script ::
  "runtime \<Rightarrow> ('srv \<Rightarrow> request \<Rightarrow> response \<times> 'srv) \<Rightarrow> 'srv world \<Rightarrow> 'srv outcome option"
where
  "script rt serve w =
     (if \<not> token_truthy (AIRTABLE_API_KEY w) \<or> \<not> token_truthy (AIRTABLE_BASE_ID w)
      then Some \<lparr> exit_status = 1, error_stream = [MissingConfig], requests = [],
                  events_json_after = events_json w, remote_after = remote w \<rparr>
      else
        (case (AIRTABLE_API_KEY w, AIRTABLE_BASE_ID w) of
           (Some api_key, Some base_id) \<Rightarrow>
             (case main rt serve api_key base_id (remote w) (clock_now w) (clock_stamp w) of
                None \<Rightarrow> None
              | Some (Inl e, srv', sent) \<Rightarrow>
                  Some \<lparr> exit_status = 1, error_stream = [ExportFailed e], requests = sent,
                         events_json_after = events_json w, remote_after = srv' \<rparr>
              | Some (Inr env, srv', sent) \<Rightarrow>
                  Some \<lparr> exit_status = 0, error_stream = [], requests = sent,
                         events_json_after = Some env, remote_after = srv' \<rparr>)
         | _ \<Rightarrow> Some \<lparr> exit_status = 1, error_stream = [MissingConfig], requests = [],
                      events_json_after = events_json w, remote_after = remote w \<rparr>))"

section \<open>Remote ends that serve pages\<close>

text \<open>
  A page is a successful response that carries a non-empty continuation token.
  \<open>serves_pages\<close> runs the remote end through the requests the fetcher sends, the first
  with the token \<open>offset\<close> and each next one with the token of the page before, and
  checks that it answers them with the given pages in turn; its value is then the state
  the remote end is left in and the token to send next.
\<close>

record page =
  page_status :: nat
  page_records :: "airtable_record list"
  page_token :: jsstring

fun serves_pages ::
  "('srv \<Rightarrow> request \<Rightarrow> response \<times> 'srv) \<Rightarrow> jsstring \<Rightarrow> jsstring \<Rightarrow> 'srv \<Rightarrow>
   jsstring option \<Rightarrow> page list \<Rightarrow> ('srv \<times> jsstring option) option"
where
  "serves_pages serve api_key base_id srv offset [] = Some (srv, offset)"
| "serves_pages serve api_key base_id srv offset (p # ps) =
     (case serve srv (make_request api_key base_id offset) of
        (resp, srv') \<Rightarrow>
          if resp = Response (page_status p) (Data (page_records p) (Some (page_token p))) \<and>
             response_ok (page_status p) \<and> page_token p \<noteq> []
          then serves_pages serve api_key base_id srv' (Some (page_token p)) ps
          else None)"

section \<open>A concrete runtime and concrete remote ends\<close>

text \<open>
  For running the definitions on inputs: a parser for the one form of date-time string
  that the remote service emits (\<open>YYYY-MM-DDTHH:mm:ss.sssZ\<close>; every other string is
  NaN here), the rule of the zone \<open>Europe/London\<close> that is in force since 1996
  (one hour ahead of UTC from 01:00 UTC on the last Sunday of March to 01:00 UTC on the
  last Sunday of October), and a machine whose own zone is UTC or a fixed offset.
  \<open>london_rule_1996\<close> is the offset of the zone at the instants from 1996 on, and
  only there: before 1847 the zone is 75 seconds behind UTC, around 1970 it is one hour
  ahead all year, and before 1996 its changes fall on other days. It is evaluated below
  at instants of the year 2024 only, and nothing is derived from its values before 1996.
\<close>

fun read_digits :: "int \<Rightarrow> jsstring \<Rightarrow> int option" where
  "read_digits acc [] = Some acc"
| "read_digits acc (c # cs) =
     (if 48 \<le> c \<and> c \<le> 57 then read_digits (10 * acc + (int c - 48)) cs else None)"

definition parse_utc :: "jsstring \<Rightarrow> int option" where
  "parse_utc s =
     (if length s = 24 \<and> s ! 4 = 45 \<and> s ! 7 = 45 \<and> s ! 10 = 84 \<and> s ! 13 = 58 \<and>
         s ! 16 = 58 \<and> s ! 19 = 46 \<and> s ! 23 = 90
      then
        (case (read_digits 0 (take 4 s), read_digits 0 (take 2 (drop 5 s)),
               read_digits 0 (take 2 (drop 8 s)), read_digits 0 (take 2 (drop 11 s)),
               read_digits 0 (take 2 (drop 14 s)), read_digits 0 (take 2 (drop 17 s)),
               read_digits 0 (take 3 (drop 20 s))) of
           (Some y, Some mo, Some d, Some h, Some mi, Some sec, Some ms) \<Rightarrow>
             if 1 \<le> mo \<and> mo \<le> 12 \<and> 1 \<le> d \<and>
                d \<le> (if mo = 12 then 31 else DaysBeforeMonth y mo - DaysBeforeMonth y (mo - 1)) \<and>
                h \<le> 23 \<and> mi \<le> 59 \<and> sec \<le> 59
             then TimeClip (MakeDate (MakeDay y (mo - 1) d) (MakeTime h mi sec ms))
             else None
         | _ \<Rightarrow> None)
      else None)"

definition last_sunday :: "int \<Rightarrow> int \<Rightarrow> int" where
  "last_sunday y mn =
     (let d = DayFromYear y + DaysBeforeMonth y mn + 30 in d - (d + 4) mod 7)"

definition london_rule_1996 :: "int \<Rightarrow> int" where
  "london_rule_1996 t =
     (let y = YearFromTime t in
      if MakeDate (last_sunday y 2) msPerHour \<le> t \<and> t < MakeDate (last_sunday y 9) msPerHour
      then msPerHour else 0)"

definition machine :: "int \<Rightarrow> runtime" where
  "machine tza =
     \<lparr> Date_parse = parse_utc, europe_london = london_rule_1996,
       LocalTZA = (\<lambda>t isUTC. tza), unicode_lower = (\<lambda>s. s) \<rparr>"

definition utc_machine :: runtime where
  "utc_machine = machine 0"

text \<open>A remote end that serves two pages, the first with a token, and counts the
  requests; and one that answers the second request with status 500.\<close>

definition page_one :: "airtable_record list" where
  "page_one =
     [\<lparr> record_id = str ''recA'',
         rec_fields = [str ''Start'' \<mapsto> JStr (str ''2024-01-31T19:30:00.000Z''),
                       str ''Title'' \<mapsto> JStr (str ''Jam'')] \<rparr>,
      \<lparr> record_id = str ''recB'',
         rec_fields = [str ''Start'' \<mapsto> JStr (str ''2024-02-01T19:30:00.000Z''),
                       str ''End'' \<mapsto> JStr (str ''2024-02-01T21:00:00.000Z''),
                       str ''Type'' \<mapsto> JStr (str ''Workshop'')] \<rparr>]"

definition page_two :: "airtable_record list" where
  "page_two =
     [\<lparr> record_id = str ''recC'',
         rec_fields = [str ''Start'' \<mapsto> JStr (str ''2024-03-15T19:30:00.000Z''),
                       str ''End'' \<mapsto> JStr (str ''2024-03-15T21:00:00.000Z''),
                       str ''Event URL'' \<mapsto> JStr (str ''https://e.example'')] \<rparr>]"

definition has_offset :: "request \<Rightarrow> bool" where
  "has_offset req = (map_of (req_params req) (str ''offset'') \<noteq> None)"

definition two_pages :: "nat \<Rightarrow> request \<Rightarrow> response \<times> nat" where
  "two_pages n req =
     (if has_offset req then (Response 200 (Data page_two None), n + 1)
      else (Response 200 (Data page_one (Some (str ''itr1''))), n + 1))"

definition failing_second :: "nat \<Rightarrow> request \<Rightarrow> response \<times> nat" where
  "failing_second n req =
     (if has_offset req then (Response 500 Malformed, n + 1)
      else (Response 200 (Data page_one (Some (str ''itr1''))), n + 1))"

text \<open>A remote end that hands out a token with every response.\<close>

definition endless :: "nat \<Rightarrow> request \<Rightarrow> response \<times> nat" where
  "endless n req = (Response 200 (Data [] (Some (str ''again''))), n + 1)"

text \<open>A world with the given environment values, a file from an earlier run, and the
  clock at 2024-03-10T12:00:00Z; and an event with a given date.\<close>

definition old_file :: envelope where
  "old_file = \<lparr> lastUpdated = 1700000000000, events = [] \<rparr>"

definition world_with :: "jsstring option \<Rightarrow> jsstring option \<Rightarrow> nat world" where
  "world_with api_key base_id =
     \<lparr> AIRTABLE_API_KEY = api_key, AIRTABLE_BASE_ID = base_id, remote = 0,
       clock_now = 1710072000000, clock_stamp = 1710072000500,
       events_json = Some old_file \<rparr>"

definition event_on :: "string \<Rightarrow> event" where
  "event_on d =
     \<lparr> date = str d, title = JStr [], venue = JStr [], time = str ''19:30'',
       type = str ''show'', url = JStr [], description = [] \<rparr>"

text \<open>A record whose \<open>Type\<close>, \<open>Title\<close> and \<open>Tickets URL\<close> are empty strings.\<close>

definition empty_fields :: airtable_record where
  "empty_fields =
     \<lparr> record_id = str ''recE'',
       rec_fields = [str ''Start'' \<mapsto> JStr (str ''2024-03-15T19:30:00.000Z''),
                     str ''Type'' \<mapsto> JStr [],
                     str ''Title'' \<mapsto> JStr [],
                     str ''Tickets URL'' \<mapsto> JStr [],
                     str ''Event URL'' \<mapsto> JStr (str ''https://e.example'')] \<rparr>"

text \<open>A record without \<open>Start\<close>.\<close>

definition no_start :: airtable_record where
  "no_start = \<lparr> record_id = str ''recN'', rec_fields = [str ''Title'' \<mapsto> JStr (str ''Jam'')] \<rparr>"

text \<open>A record without \<open>Start\<close> whose \<open>Type\<close> is the number 5, and a remote end that
  serves this record on its one page.\<close>

definition numeric_type :: airtable_record where
  "numeric_type = \<lparr> record_id = str ''recT'', rec_fields = [str ''Type'' \<mapsto> JNum 5] \<rparr>"

definition numeric_type_page :: "nat \<Rightarrow> request \<Rightarrow> response \<times> nat" where
  "numeric_type_page n req = (Response 200 (Data [numeric_type] None), n + 1)"

section \<open>The date format of the specification\<close>

text \<open>The zero-padded form \<open>YYYY-MM-DD\<close> of a year, a month (1 to 12) and a day, as the
  specification words it.\<close>

definition four_digit :: "int \<Rightarrow> jsstring" where
  "four_digit y =
     [48 + nat (y div 1000), 48 + nat (y div 100 mod 10), 48 + nat (y div 10 mod 10),
      48 + nat (y mod 10)]"

definition YYYY_MM_DD :: "int \<Rightarrow> int \<Rightarrow> int \<Rightarrow> jsstring" where
  "YYYY_MM_DD y m d = four_digit y @ str ''-'' @ two_digit m @ str ''-'' @ two_digit d"

section \<open>Properties of the time arithmetic\<close>

lemma div_succ:
  fixes a k :: int
  assumes k: "0 < k"
  shows "(a + 1) div k = (if (a + 1) mod k = 0 then a div k + 1 else a div k)"
proof -
  have r: "0 \<le> a mod k" "a mod k < k" using k by simp_all
  have e: "a + 1 = k * (a div k) + (a mod k + 1)" by simp
  show ?thesis
  proof (cases "a mod k + 1 = k")
    case True
    have e2: "a + 1 = k * (a div k + 1) + 0"
      using e True by (simp add: distrib_left)
    have "(a + 1) div k = a div k + 1"
      by (rule int_div_pos_eq [OF e2]) (use k in simp_all)
    moreover have "(a + 1) mod k = 0"
      by (rule int_mod_pos_eq [OF e2]) (use k in simp_all)
    ultimately show ?thesis by simp
  next
    case False
    then have lt: "a mod k + 1 < k" using r by linarith
    have p: "0 \<le> a mod k + 1" using r by linarith
    have d: "(a + 1) div k = a div k"
      using e p lt by (rule int_div_pos_eq)
    have m: "(a + 1) mod k = a mod k + 1"
      using e p lt by (rule int_mod_pos_eq)
    from d m r show ?thesis by simp
  qed
qed

lemma mod_shift_4: "(y - 1968) mod 4 = (y::int) mod 4"
  using mod_diff_eq [of y 4 1968] by simp
lemma mod_shift_100: "(y - 1900) mod 100 = (y::int) mod 100"
  using mod_diff_eq [of y 100 1900] by simp
lemma mod_shift_400: "(y - 1600) mod 400 = (y::int) mod 400"
  using mod_diff_eq [of y 400 1600] by simp

lemma mod_100_4: "(y::int) mod 100 = 0 \<Longrightarrow> y mod 4 = 0"
  using mod_mod_cancel [of 4 100 y] by simp
lemma mod_400_100: "(y::int) mod 400 = 0 \<Longrightarrow> y mod 100 = 0"
  using mod_mod_cancel [of 100 400 y] by simp

lemma DayFromYear_step: "DayFromYear (y + 1) = DayFromYear y + DaysInYear y"
proof -
  have a4: "(y + 1 - 1969) div 4 = (if y mod 4 = 0 then (y - 1969) div 4 + 1 else (y - 1969) div 4)"
    using div_succ [of 4 "y - 1969"] mod_shift_4 [of y] by (simp add: algebra_simps)
  have a100: "(y + 1 - 1901) div 100 = (if y mod 100 = 0 then (y - 1901) div 100 + 1 else (y - 1901) div 100)"
    using div_succ [of 100 "y - 1901"] mod_shift_100 [of y] by (simp add: algebra_simps)
  have a400: "(y + 1 - 1601) div 400 = (if y mod 400 = 0 then (y - 1601) div 400 + 1 else (y - 1601) div 400)"
    using div_succ [of 400 "y - 1601"] mod_shift_400 [of y] by (simp add: algebra_simps)
  show ?thesis
    unfolding DayFromYear_def DaysInYear_def a4 a100 a400
    using mod_100_4 [of y] mod_400_100 [of y] by auto
qed

lemma DaysInYear_bounds: "365 \<le> DaysInYear y \<and> DaysInYear y \<le> 366"
  by (simp add: DaysInYear_def)

lemma DayFromYear_less_step: "DayFromYear y < DayFromYear (y + 1)"
  using DaysInYear_bounds [of y] by (simp add: DayFromYear_step)

lemma DayFromYear_upto:
  "DayFromYear y + 365 * int n \<le> DayFromYear (y + int n) \<and>
   DayFromYear (y + int n) \<le> DayFromYear y + 366 * int n"
proof (induction n)
  case 0
  then show ?case by simp
next
  case (Suc n)
  have "DayFromYear (y + int (Suc n)) = DayFromYear (y + int n) + DaysInYear (y + int n)"
  proof -
    have "y + int (Suc n) = y + int n + 1" by simp
    then show ?thesis by (simp only: DayFromYear_step)
  qed
  with Suc DaysInYear_bounds [of "y + int n"] show ?case by simp
qed

lemma DayFromYear_mono: "y \<le> z \<Longrightarrow> DayFromYear y \<le> DayFromYear z"
  using DayFromYear_upto [of y "nat (z - y)"] by simp

lemma DayFromYear_1970: "DayFromYear 1970 = 0"
  by (simp add: DayFromYear_def)

lemma year_search_correct:
  "DayFromYear y \<le> d \<Longrightarrow>
     DayFromYear (year_search d y) \<le> d \<and> d < DayFromYear (year_search d y + 1)"
proof (induction d y rule: year_search.induct)
  case (1 d y)
  show ?case
  proof (cases "DayFromYear (y + 1) \<le> d")
    case True
    with "1.IH" show ?thesis by (simp add: year_search.simps [of d y])
  next
    case False
    with "1.prems" show ?thesis by (simp add: year_search.simps [of d y])
  qed
qed

lemma year_estimate:
  "DayFromYear (1970 + (if 0 \<le> d then d div 366 else d div 365)) \<le> d"
proof (cases "0 \<le> d")
  case True
  then have j: "0 \<le> d div 366" by simp
  have "366 * (d div 366) \<le> d" by (simp add: algebra_simps)
  moreover have "DayFromYear (1970 + d div 366) \<le> 366 * (d div 366)"
    using DayFromYear_upto [of 1970 "nat (d div 366)"] j by (simp add: DayFromYear_1970)
  ultimately show ?thesis using True by simp
next
  case False
  then have j: "d div 365 < 0" by simp
  let ?y = "1970 + d div 365"
  have "365 * (d div 365) \<le> d" by (simp add: algebra_simps)
  moreover have "DayFromYear ?y + 365 * (- (d div 365)) \<le> 0"
    using DayFromYear_upto [of ?y "nat (- (d div 365))"] j by (simp add: DayFromYear_1970)
  ultimately show ?thesis using False by simp
qed

lemma YearFromDay_bounds:
  "DayFromYear (YearFromDay d) \<le> d \<and> d < DayFromYear (YearFromDay d + 1)"
  unfolding YearFromDay_def by (rule year_search_correct [OF year_estimate])

lemma YearFromDay_unique:
  assumes "DayFromYear y \<le> d" and "d < DayFromYear (y + 1)"
  shows "YearFromDay d = y"
proof (rule ccontr)
  assume ne: "YearFromDay d \<noteq> y"
  let ?z = "YearFromDay d"
  from YearFromDay_bounds [of d]
  have b: "DayFromYear ?z \<le> d" "d < DayFromYear (?z + 1)" by simp_all
  from ne consider "?z + 1 \<le> y" | "y + 1 \<le> ?z" by linarith
  then show False
  proof cases
    case 1
    from DayFromYear_mono [OF 1] b assms show False by linarith
  next
    case 2
    from DayFromYear_mono [OF 2] b assms show False by linarith
  qed
qed

lemma Day_MakeDate: "0 \<le> tm \<Longrightarrow> tm < msPerDay \<Longrightarrow> Day (MakeDate d tm) = d"
  unfolding Day_def MakeDate_def
  by (rule int_div_pos_eq [of _ _ _ tm]) (simp_all add: msPerDay_def)

lemma DaysBeforeMonth_bounds:
  "0 \<le> DaysBeforeMonth y mn \<and> DaysBeforeMonth y mn < DaysInYear y"
  by (simp add: DaysBeforeMonth_def DaysInYear_def)

lemma month_cases:
  "0 \<le> mn \<Longrightarrow> mn < 12 \<Longrightarrow>
   mn = 0 \<or> mn = 1 \<or> mn = 2 \<or> mn = 3 \<or> mn = 4 \<or> mn = 5 \<or> mn = 6 \<or> mn = 7 \<or>
   mn = 8 \<or> mn = 9 \<or> mn = 10 \<or> mn = (11::int)"
  by arith

lemma first_of_month:
  fixes y mn tm :: int
  assumes mn: "0 \<le> mn" "mn < 12" and tm: "0 \<le> tm" "tm < msPerDay"
  defines "t \<equiv> MakeDate (DayFromYear y + DaysBeforeMonth y mn) tm"
  shows "YearFromTime t = y \<and> MonthFromTime t = mn \<and> DateFromTime t = 1"
proof -
  have d: "Day t = DayFromYear y + DaysBeforeMonth y mn"
    unfolding t_def by (rule Day_MakeDate [OF tm])
  have yr: "YearFromTime t = y"
    unfolding YearFromTime_def d
    using DaysBeforeMonth_bounds [of y mn]
    by (intro YearFromDay_unique) (simp_all add: DayFromYear_step)
  have dw: "DayWithinYear t = DaysBeforeMonth y mn"
    by (simp add: DayWithinYear_def d yr)
  have lp: "InLeapYear t = (if DaysInYear y = 365 then 0 else 1)"
    by (simp add: InLeapYear_def yr)
  have mo: "MonthFromTime t = mn"
    using month_cases [OF mn]
    by (auto simp add: MonthFromTime_def dw lp DaysBeforeMonth_def)
  have "DateFromTime t = 1"
    using month_cases [OF mn]
    by (auto simp add: DateFromTime_def mo dw lp DaysBeforeMonth_def)
  with yr mo show ?thesis by simp
qed

section \<open>Properties of the transformer and of the formats\<close>

lemma toLowerCase_show: "toLowerCase rt (str ''show'') = str ''show''"
  by (simp add: toLowerCase_def str_def ascii_lower_def)

lemma call_toLowerCase_ok:
  assumes "\<not> truthy v \<or> (\<exists>s. v = JStr s)"
  shows "call_toLowerCase rt (js_or v (JStr (str ''show''))) =
         Inr (case v of JStr s \<Rightarrow> if s = [] then str ''show'' else toLowerCase rt s
                   | _ \<Rightarrow> str ''show'')"
proof (cases v)
  case JUndefined
  then show ?thesis by (simp add: js_or_def toLowerCase_show)
next
  case JNull
  then show ?thesis by (simp add: js_or_def toLowerCase_show)
next
  case (JBool b)
  with assms show ?thesis by (simp add: js_or_def toLowerCase_show)
next
  case (JNum r)
  with assms show ?thesis by (simp add: js_or_def toLowerCase_show)
next
  case (JStr s)
  then show ?thesis by (simp add: js_or_def toLowerCase_show)
next
  case (JObject s)
  with assms show ?thesis by simp
qed

lemma transformEvent_ok:
  assumes "\<not> truthy (lookup (rec_fields r) ''Type'') \<or> (\<exists>s. lookup (rec_fields r) ''Type'' = JStr s)"
  shows "transformEvent rt r =
     Inr \<lparr> date = formatDate rt (lookup (rec_fields r) ''Start''),
           title = js_or (lookup (rec_fields r) ''Title'') (JStr []),
           venue = js_or (lookup (rec_fields r) ''Venue'') (JStr []),
           time = formatTime rt (lookup (rec_fields r) ''Start'') (lookup (rec_fields r) ''End''),
           type = (case lookup (rec_fields r) ''Type'' of
                     JStr s \<Rightarrow> if s = [] then str ''show'' else toLowerCase rt s
                   | _ \<Rightarrow> str ''show''),
           url = js_or (lookup (rec_fields r) ''Tickets URL'')
                   (js_or (lookup (rec_fields r) ''Event URL'') (JStr [])),
           description = [] \<rparr>"
  unfolding transformEvent_def Let_def
  by (simp only: call_toLowerCase_ok [OF assms] sum.case)

lemma transformEvent_Inr_fields:
  assumes "transformEvent rt r = Inr e"
  shows "date e = formatDate rt (lookup (rec_fields r) ''Start'') \<and>
         title e = js_or (lookup (rec_fields r) ''Title'') (JStr []) \<and>
         venue e = js_or (lookup (rec_fields r) ''Venue'') (JStr []) \<and>
         time e = formatTime rt (lookup (rec_fields r) ''Start'') (lookup (rec_fields r) ''End'') \<and>
         url e = js_or (lookup (rec_fields r) ''Tickets URL'')
                   (js_or (lookup (rec_fields r) ''Event URL'') (JStr [])) \<and>
         description e = []"
  using assms unfolding transformEvent_def Let_def
  by (auto split: sum.splits)

lemma transformEvent_Inr_type:
  assumes "transformEvent rt r = Inr e"
  shows "call_toLowerCase rt (js_or (lookup (rec_fields r) ''Type'') (JStr (str ''show''))) = Inr (type e)"
  using assms unfolding transformEvent_def Let_def
  by (auto split: sum.splits)

lemma decimal_first: "\<exists>d ds. decimal n = d # ds \<and> 48 \<le> d \<and> d \<le> 57"
proof (induction n rule: decimal.induct)
  case (1 n)
  show ?case
  proof (cases "n < 10")
    case True
    then show ?thesis by (simp add: decimal.simps [of n])
  next
    case False
    with "1.IH" obtain d ds where "decimal (n div 10) = d # ds" "48 \<le> d" "d \<le> 57" by auto
    with False show ?thesis by (simp add: decimal.simps [of n])
  qed
qed

lemma js_less_irrefl: "\<not> js_less s s"
  by (induction s) simp_all

lemma Invalid_Date_ge: "js_ge (str ''Invalid Date'') (toLocaleDateString rt d)"
proof (cases d)
  case None
  then show ?thesis by (simp add: toLocaleDateString_def js_ge_def js_less_irrefl)
next
  case (Some t)
  let ?lt = "t + europe_london rt t"
  obtain c cs where "decimal (nat (if 0 < YearFromTime ?lt then YearFromTime ?lt
                                   else 1 - YearFromTime ?lt)) = c # cs" "c \<le> 57"
    using decimal_first by blast
  with Some show ?thesis
    by (simp add: toLocaleDateString_def format_en_CA_def Let_def js_ge_def str_def)
qed

lemma decimal_four_digit:
  assumes "1000 \<le> y" and "y \<le> 9999"
  shows "decimal (nat y) = four_digit y"
proof -
  define n where "n = nat y"
  have y: "y = int n" and n: "1000 \<le> n" "n \<le> 9999" using assms by (simp_all add: n_def)
  have d1: "decimal n = decimal (n div 10) @ [48 + n mod 10]"
    using n by (subst decimal.simps) simp
  have d2: "decimal (n div 10) = decimal (n div 100) @ [48 + n div 10 mod 10]"
    using n by (subst decimal.simps) (simp add: div_mult2_eq [symmetric])
  have d3: "decimal (n div 100) = decimal (n div 1000) @ [48 + n div 100 mod 10]"
    using n by (subst decimal.simps) (simp add: div_mult2_eq [symmetric])
  have d4: "decimal (n div 1000) = [48 + n div 1000]"
    using n by (subst decimal.simps) simp
  have c: "nat (int n div 1000) = n div 1000" "nat (int n div 100 mod 10) = n div 100 mod 10"
    "nat (int n div 10 mod 10) = n div 10 mod 10" "nat (int n mod 10) = n mod 10"
    by (simp_all add: nat_div_distrib nat_mod_distrib)
  have "decimal n = four_digit (int n)"
    by (simp only: four_digit_def c d1 d2 d3 d4 append.simps)
  then show ?thesis
    using assms by (simp add: n_def)
qed

lemma MonthFromTime_range: "0 \<le> MonthFromTime t \<and> MonthFromTime t \<le> 11"
  by (simp add: MonthFromTime_def Let_def)

lemma DayFromYear_abs: "\<bar>DayFromYear y\<bar> \<le> 366 * \<bar>y - 1970\<bar>"
proof (cases "1970 \<le> y")
  case True
  with DayFromYear_upto [of 1970 "nat (y - 1970)"] show ?thesis
    by (simp add: DayFromYear_1970)
next
  case False
  with DayFromYear_upto [of y "nat (1970 - y)"] show ?thesis
    by (simp add: DayFromYear_1970)
qed

lemma first_of_month_clip2:
  assumes "1000 \<le> y" "y \<le> 9999" and "\<bar>z\<bar> \<le> msPerDay"
  shows "\<bar>MakeDate (DayFromYear y + DaysBeforeMonth y mn) 0 - z\<bar> \<le> 8640000000000000"
proof -
  have a: "\<bar>y - 1970\<bar> \<le> 8029" using assms by (simp add: abs_le_iff)
  have "\<bar>DayFromYear y\<bar> \<le> 366 * \<bar>y - 1970\<bar>" by (rule DayFromYear_abs)
  also have "\<dots> \<le> 366 * 8029" using a by (intro mult_left_mono) simp_all
  finally have "\<bar>DayFromYear y\<bar> \<le> 366 * 8029" .
  moreover have "0 \<le> DaysBeforeMonth y mn" "DaysBeforeMonth y mn < 366"
    using DaysBeforeMonth_bounds [of y mn] DaysInYear_bounds [of y] by simp_all
  ultimately show ?thesis
    using assms(3) by (simp add: MakeDate_def msPerDay_def)
qed

lemma first_of_month_in_London:
  fixes y mn :: int
  defines "f \<equiv> MakeDate (DayFromYear y + DaysBeforeMonth y mn) 0"
  assumes ahead: "LocalTZA rt f False \<le> europe_london rt (f - LocalTZA rt f False)"
    and behind: "europe_london rt (f - LocalTZA rt f False) < LocalTZA rt f False + msPerDay"
    and bound: "\<bar>LocalTZA rt f False\<bar> \<le> msPerDay"
    and mn: "0 \<le> mn" "mn < 12" and yr: "1000 \<le> y" "y \<le> 9999"
  shows "toLocaleDateString rt (new_Date_ymd rt y mn 1) = YYYY_MM_DD y (mn + 1) 1"
proof -
  let ?z = "LocalTZA rt f False"
  let ?u = "f - ?z"
  have dm: "mn div 12 = 0" "mn mod 12 = mn" using mn by simp_all
  have nd: "new_Date_ymd rt y mn 1 = Some ?u"
    using yr first_of_month_clip2 [OF yr bound [unfolded f_def], of mn]
    by (simp add: new_Date_ymd_def MakeDay_def MakeTime_def TimeClip_def dm Let_def f_def)
  have sh: "?u + europe_london rt ?u =
            MakeDate (DayFromYear y + DaysBeforeMonth y mn) (europe_london rt ?u - ?z)"
    by (simp add: MakeDate_def f_def)
  from ahead behind
  have l: "0 \<le> europe_london rt ?u - ?z" "europe_london rt ?u - ?z < msPerDay"
    by simp_all
  note fm = first_of_month [OF mn l, of y]
  show ?thesis
    unfolding nd toLocaleDateString_def option.case sh format_en_CA_def Let_def
    using fm yr by (simp add: YYYY_MM_DD_def decimal_four_digit)
qed

lemma str_eq_iff: "str a = str b \<longleftrightarrow> a = b"
proof -
  have "inj (of_char :: char \<Rightarrow> nat)" by (simp add: inj_def)
  then show ?thesis by (simp add: str_def inj_map_eq_map)
qed

lemma lookup_upd: "lookup (m(str k \<mapsto> v)) k' = (if k = k' then v else lookup m k')"
  by (simp add: lookup_def str_eq_iff)

lemma lookup_del: "lookup (m(str k := None)) k' = (if k = k' then JUndefined else lookup m k')"
  by (simp add: lookup_def str_eq_iff)

lemma js_or_falsy: "\<not> truthy v \<Longrightarrow> js_or v d = d"
  by (simp add: js_or_def)

lemma transformEvent_cong:
  assumes "lookup (rec_fields r) ''Start'' = lookup (rec_fields r') ''Start''"
    and "lookup (rec_fields r) ''End'' = lookup (rec_fields r') ''End''"
    and "js_or (lookup (rec_fields r) ''Type'') (JStr (str ''show'')) =
         js_or (lookup (rec_fields r') ''Type'') (JStr (str ''show''))"
    and "js_or (lookup (rec_fields r) ''Title'') (JStr []) =
         js_or (lookup (rec_fields r') ''Title'') (JStr [])"
    and "js_or (lookup (rec_fields r) ''Venue'') (JStr []) =
         js_or (lookup (rec_fields r') ''Venue'') (JStr [])"
    and "js_or (lookup (rec_fields r) ''Tickets URL'')
           (js_or (lookup (rec_fields r) ''Event URL'') (JStr [])) =
         js_or (lookup (rec_fields r') ''Tickets URL'')
           (js_or (lookup (rec_fields r') ''Event URL'') (JStr []))"
  shows "transformEvent rt r = transformEvent rt r'"
  unfolding transformEvent_def Let_def by (simp only: assms)

lemma falsy_as_absent:
  assumes "k \<in> set [''Type'', ''Title'', ''Venue'', ''Tickets URL'', ''Event URL'']"
    and "\<not> truthy v"
  shows "transformEvent rt (r\<lparr>rec_fields := (rec_fields r)(str k \<mapsto> v)\<rparr>) =
         transformEvent rt (r\<lparr>rec_fields := (rec_fields r)(str k := None)\<rparr>)"
proof (rule transformEvent_cong)
  from assms(1) have k: "k \<noteq> ''Start''" "k \<noteq> ''End''" by auto
  let ?a = "r\<lparr>rec_fields := (rec_fields r)(str k \<mapsto> v)\<rparr>"
  let ?b = "r\<lparr>rec_fields := (rec_fields r)(str k := None)\<rparr>"
  show "lookup (rec_fields ?a) ''Start'' = lookup (rec_fields ?b) ''Start''"
    using k by (simp add: lookup_upd lookup_del)
  show "lookup (rec_fields ?a) ''End'' = lookup (rec_fields ?b) ''End''"
    using k by (simp add: lookup_upd lookup_del)
  show "js_or (lookup (rec_fields ?a) ''Type'') (JStr (str ''show'')) =
        js_or (lookup (rec_fields ?b) ''Type'') (JStr (str ''show''))"
    using assms(2) by (simp add: lookup_upd lookup_del js_or_falsy)
  show "js_or (lookup (rec_fields ?a) ''Title'') (JStr []) =
        js_or (lookup (rec_fields ?b) ''Title'') (JStr [])"
    using assms(2) by (simp add: lookup_upd lookup_del js_or_falsy)
  show "js_or (lookup (rec_fields ?a) ''Venue'') (JStr []) =
        js_or (lookup (rec_fields ?b) ''Venue'') (JStr [])"
    using assms(2) by (simp add: lookup_upd lookup_del js_or_falsy)
  show "js_or (lookup (rec_fields ?a) ''Tickets URL'')
           (js_or (lookup (rec_fields ?a) ''Event URL'') (JStr [])) =
        js_or (lookup (rec_fields ?b) ''Tickets URL'')
           (js_or (lookup (rec_fields ?b) ''Event URL'') (JStr []))"
    using assms(2) by (simp add: lookup_upd lookup_del js_or_falsy)
qed

lemma ascii_lower_idem: "ascii_lower (ascii_lower c) = ascii_lower c"
  by (simp add: ascii_lower_def)

lemma ascii_lower_ascii: "c < 128 \<Longrightarrow> ascii_lower c < 128"
  by (simp add: ascii_lower_def)

lemma toLowerCase_machine_idem:
  "toLowerCase (machine z) (toLowerCase (machine z) s) = toLowerCase (machine z) s"
proof (cases "list_all (\<lambda>c. c < 128) s")
  case True
  then have "list_all (\<lambda>c. c < 128) (map ascii_lower s)"
    by (simp add: list_all_iff ascii_lower_ascii)
  with True show ?thesis
    by (simp add: toLowerCase_def ascii_lower_idem)
next
  case False
  then show ?thesis by (simp add: toLowerCase_def machine_def)
qed

lemma fixed_no_capital:
  assumes "toLowerCase rt s = s" and "list_all (\<lambda>c. c < 128) s"
  shows "list_all (\<lambda>c. \<not> (65 \<le> c \<and> c \<le> 90)) s"
proof -
  from assms have "map ascii_lower s = s" by (simp add: toLowerCase_def)
  then have "\<forall>c \<in> set s. ascii_lower c = c" by (simp add: map_idI map_eq_conv [symmetric])
  then have "\<forall>c \<in> set s. \<not> (65 \<le> c \<and> c \<le> 90)"
    by (auto simp: ascii_lower_def split: if_splits)
  then show ?thesis by (simp add: list_all_iff)
qed

lemma empty_fields_lookups:
  "lookup (rec_fields empty_fields) ''Type'' = JStr []"
  "lookup (rec_fields empty_fields) ''Title'' = JStr []"
  "lookup (rec_fields empty_fields) ''Tickets URL'' = JStr []"
  "lookup (rec_fields empty_fields) ''Event URL'' = JStr (str ''https://e.example'')"
  by (simp_all add: empty_fields_def lookup_def str_def)

lemma noon_2024_03_10_local:
  "getFullYear utc_machine 1710072000000 = 2024 \<and> getMonth utc_machine 1710072000000 = 2"
  by code_simp

lemma first_of_february_2024:
  "MakeDate (MakeDay 2024 1 1) (MakeTime 0 0 0 0) = 1706745600000 \<and>
   LocalTZA utc_machine 1706745600000 False = 0 \<and>
   europe_london utc_machine 1706745600000 = 0"
  by code_simp

lemma formatTime_without_End:
  "\<not> truthy e \<Longrightarrow> formatTime rt s e = toLocaleTimeString rt (new_Date rt s)"
  by (simp add: formatTime_def)

lemma formatTime_with_End:
  "truthy e \<Longrightarrow>
   formatTime rt s e =
     toLocaleTimeString rt (new_Date rt s) @ [0xE2, 0x20AC, 0x201C] @
     toLocaleTimeString rt (new_Date rt e)"
  by (simp add: formatTime_def range_separator_def)

lemma transformEvent_TypeError:
  assumes "truthy (lookup (rec_fields r) ''Type'')"
    and "\<forall>s. lookup (rec_fields r) ''Type'' \<noteq> JStr s"
  shows "transformEvent rt r = Inl TypeError"
  using assms
  by (cases "lookup (rec_fields r) ''Type''") (simp_all add: transformEvent_def js_or_def)

section \<open>Properties of the fetch loop\<close>

lemma fetch_pages_serves:
  "serves_pages serve k b srv off ps = Some (srv1, off1) \<Longrightarrow>
   fetch_pages serve k b srv sent evs off =
   fetch_pages serve k b srv1
     (sent @ map (make_request k b) (butlast (off # map (\<lambda>p. Some (page_token p)) ps)))
     (evs @ concat (map page_records ps)) off1"
proof (induction ps arbitrary: srv off sent evs)
  case Nil
  then show ?case by simp
next
  case (Cons p ps)
  obtain resp srv' where sv: "serve srv (make_request k b off) = (resp, srv')"
    by (cases "serve srv (make_request k b off)")
  from Cons.prems sv
  have r: "resp = Response (page_status p) (Data (page_records p) (Some (page_token p)))"
    and ok: "response_ok (page_status p)" and tk: "page_token p \<noteq> []"
    and rest: "serves_pages serve k b srv' (Some (page_token p)) ps = Some (srv1, off1)"
    by (simp_all split: if_splits)
  have "fetch_pages serve k b srv sent evs off =
        fetch_pages serve k b srv' (sent @ [make_request k b off]) (evs @ page_records p)
          (Some (page_token p))"
    by (subst fetch_pages.simps) (simp add: sv r ok tk token_truthy_def)
  also have "\<dots> = fetch_pages serve k b srv1
     ((sent @ [make_request k b off]) @
        map (make_request k b)
          (butlast (Some (page_token p) # map (\<lambda>p. Some (page_token p)) ps)))
     ((evs @ page_records p) @ concat (map page_records ps)) off1"
    by (rule Cons.IH [OF rest])
  finally show ?case by simp
qed

lemma map_butlast_snoc:
  assumes "y = last (x # xs)"
  shows "map f (butlast (x # xs)) @ [f y] = map f (x # xs)"
proof -
  have "butlast (x # xs) @ [last (x # xs)] = x # xs"
    by (rule append_butlast_last_id) simp
  then have "map f (butlast (x # xs) @ [last (x # xs)]) = map f (x # xs)"
    by (simp only:)
  then show ?thesis
    unfolding assms by (simp only: map_append list.map)
qed

lemma serves_pages_last:
  "serves_pages serve k b srv off ps = Some (srv1, off1) \<Longrightarrow>
   off1 = last (off # map (\<lambda>p. Some (page_token p)) ps)"
proof (induction ps arbitrary: srv off)
  case Nil
  then show ?case by simp
next
  case (Cons p ps)
  obtain resp srv' where sv: "serve srv (make_request k b off) = (resp, srv')"
    by (cases "serve srv (make_request k b off)")
  from Cons.prems sv
  have "serves_pages serve k b srv' (Some (page_token p)) ps = Some (srv1, off1)"
    by (simp split: if_splits)
  from Cons.IH [OF this] show ?case by simp
qed


lemma fetch_after_pages:
  assumes "serves_pages serve k b srv None ps = Some (srv1, off1)"
  shows "fetchApprovedEvents serve k b srv =
         fetch_pages serve k b srv1
           (map (make_request k b) (butlast (None # map (\<lambda>p. Some (page_token p)) ps)))
           (concat (map page_records ps)) off1"
  unfolding fetchApprovedEvents_def using fetch_pages_serves [OF assms, of "[]" "[]"] by simp

text \<open>Against a remote end that never stops handing out tokens the loop does not
  return.\<close>

lemma fetch_endless_aux:
  assumes "fetch_pages serve k b n sent evs off = Some y"
  shows "serve \<noteq> endless"
proof (rule fetch_pages.raw_induct
    [where P = "\<lambda>serve k b n sent evs off y. serve \<noteq> endless", OF _ assms])
  fix f :: "(nat \<Rightarrow> request \<Rightarrow> response \<times> nat) \<Rightarrow> jsstring \<Rightarrow> jsstring \<Rightarrow> nat \<Rightarrow>
      request list \<Rightarrow> airtable_record list \<Rightarrow> jsstring option \<Rightarrow>
      ((error + airtable_record list) \<times> nat \<times> request list) option"
  fix serve k b n sent evs off y
  assume ih: "\<And>serve k b n sent evs off y.
      f serve k b n sent evs off = Some y \<Longrightarrow> serve \<noteq> endless"
  assume st: "(let req = make_request k b off in
      case serve n req of
        (Rejected, srv') \<Rightarrow> Some (Inl FetchRejected, srv', sent @ [req])
      | (Response status bd, srv') \<Rightarrow>
          if \<not> response_ok status then Some (Inl (ApiError status), srv', sent @ [req])
          else (case bd of
                  Malformed \<Rightarrow> Some (Inl JsonSyntaxError, srv', sent @ [req])
                | Data records offset' \<Rightarrow>
                    if token_truthy offset'
                    then f serve k b srv' (sent @ [req]) (evs @ records) offset'
                    else Some (Inr (evs @ records), srv', sent @ [req]))) = Some y"
  show "serve \<noteq> endless"
  proof
    assume e: "serve = endless"
    from st have "f endless k b (n + 1) (sent @ [make_request k b off]) (evs @ [])
        (Some (str ''again'')) = Some y"
      by (simp add: e endless_def response_ok_def token_truthy_def str_def)
    from ih [OF this] show False by simp
  qed
qed

lemma fetch_endless: "fetchApprovedEvents endless k b n = None"
proof (cases "fetchApprovedEvents endless k b n")
  case None
  then show ?thesis .
next
  case (Some y)
  then show ?thesis
    using fetch_endless_aux [of endless k b n "[]" "[]" None y]
    by (simp add: fetchApprovedEvents_def)
qed

section \<open>The paginated fetcher\<close>



text \<open>
  Claim C4. Let the remote end serve the pages \<open>ps\<close> and answer the request after them
  with a status outside 200..299. Then the run ends with exit status 1, the top-level
  handler has reported the error that carries the status, and \<open>events.json\<close> is what it
  was before the run.
\<close>

theorem script_api_error:
  assumes "AIRTABLE_API_KEY w = Some k" and "k \<noteq> []"
    and "AIRTABLE_BASE_ID w = Some b" and "b \<noteq> []"
    and "serves_pages serve k b (remote w) None ps = Some (srv1, off1)"
    and "serve srv1 (make_request k b off1) = (Response st bd, srv2)"
    and "\<not> response_ok st"
  shows "script rt serve w =
           Some \<lparr> exit_status = 1, error_stream = [ExportFailed (ApiError st)],
                  requests = map (make_request k b) (None # map (\<lambda>p. Some (page_token p)) ps),
                  events_json_after = events_json w, remote_after = srv2 \<rparr>"
proof -
  have "fetchApprovedEvents serve k b (remote w) =
        fetch_pages serve k b srv1
          (map (make_request k b) (butlast (None # map (\<lambda>p. Some (page_token p)) ps)))
          (concat (map page_records ps)) off1"
    by (rule fetch_after_pages [OF assms(5)])
  also have "\<dots> = Some (Inl (ApiError st), srv2,
       map (make_request k b) (butlast (None # map (\<lambda>p. Some (page_token p)) ps)) @
       [make_request k b off1])"
    by (subst fetch_pages.simps) (simp add: assms)
  also have "map (make_request k b) (butlast (None # map (\<lambda>p. Some (page_token p)) ps)) @
       [make_request k b off1] = map (make_request k b) (None # map (\<lambda>p. Some (page_token p)) ps)"
    by (rule map_butlast_snoc [OF serves_pages_last [OF assms(5)]])
  finally have f: "fetchApprovedEvents serve k b (remote w) =
      Some (Inl (ApiError st), srv2,
            map (make_request k b) (None # map (\<lambda>p. Some (page_token p)) ps))" .
  show ?thesis
    by (simp add: script_def main_def f assms token_truthy_def)
qed

text \<open>The remote end \<open>failing_second\<close> answers the second request with status 500.\<close>

theorem script_api_error_witness:
  "AIRTABLE_API_KEY (world_with (Some (str ''key'')) (Some (str ''app''))) = Some (str ''key'') \<and>
   str ''key'' \<noteq> [] \<and>
   AIRTABLE_BASE_ID (world_with (Some (str ''key'')) (Some (str ''app''))) = Some (str ''app'') \<and>
   str ''app'' \<noteq> [] \<and>
   serves_pages failing_second (str ''key'') (str ''app'') 0 None
     [\<lparr> page_status = 200, page_records = page_one, page_token = str ''itr1'' \<rparr>]
     = Some (1, Some (str ''itr1'')) \<and>
   failing_second 1 (make_request (str ''key'') (str ''app'') (Some (str ''itr1'')))
     = (Response 500 Malformed, 2) \<and>
   \<not> response_ok 500 \<and>
   script utc_machine failing_second (world_with (Some (str ''key'')) (Some (str ''app''))) =
     Some \<lparr> exit_status = 1, error_stream = [ExportFailed (ApiError 500)],
            requests = [make_request (str ''key'') (str ''app'') None,
                        make_request (str ''key'') (str ''app'') (Some (str ''itr1''))],
            events_json_after = Some old_file, remote_after = 2 \<rparr>"
proof -
  let ?w = "world_with (Some (str ''key'')) (Some (str ''app''))"
  have h1: "AIRTABLE_API_KEY ?w = Some (str ''key'')" by (simp add: world_with_def)
  have h2: "str ''key'' \<noteq> []" by (simp add: str_def)
  have h3: "AIRTABLE_BASE_ID ?w = Some (str ''app'')" by (simp add: world_with_def)
  have h4: "str ''app'' \<noteq> []" by (simp add: str_def)
  have h5: "serves_pages failing_second (str ''key'') (str ''app'') (remote ?w) None
     [\<lparr> page_status = 200, page_records = page_one, page_token = str ''itr1'' \<rparr>]
     = Some (1, Some (str ''itr1''))"
    by (simp add: failing_second_def has_offset_def make_request_def response_ok_def str_def
        world_with_def)
  have h6: "failing_second 1 (make_request (str ''key'') (str ''app'') (Some (str ''itr1'')))
     = (Response 500 Malformed, 2)"
    by (simp add: failing_second_def has_offset_def make_request_def str_def)
  have h7: "\<not> response_ok 500" by (simp add: response_ok_def)
  from script_api_error [OF h1 h2 h3 h4 h5 h6 h7, of utc_machine] h1 h2 h3 h4 h5 h6 h7
  show ?thesis by (simp add: world_with_def)
qed

section \<open>The configuration check\<close>

text \<open>
  Claim C5. If \<open>AIRTABLE_API_KEY\<close> or \<open>AIRTABLE_BASE_ID\<close> is missing or empty, the run
  ends with exit status 1 after one diagnostic on the error stream, no request has been
  sent, and the remote end and the file are untouched.
\<close>

theorem script_missing_config:
  assumes "AIRTABLE_API_KEY w = None \<or> AIRTABLE_API_KEY w = Some [] \<or>
           AIRTABLE_BASE_ID w = None \<or> AIRTABLE_BASE_ID w = Some []"
  shows "script rt serve w =
           Some \<lparr> exit_status = 1, error_stream = [MissingConfig], requests = [],
                  events_json_after = events_json w, remote_after = remote w \<rparr>"
  using assms by (auto simp add: script_def token_truthy_def)

theorem script_missing_config_witness:
  "AIRTABLE_API_KEY (world_with None (Some (str ''app''))) = None \<and>
   script utc_machine two_pages (world_with None (Some (str ''app''))) =
     Some \<lparr> exit_status = 1, error_stream = [MissingConfig], requests = [],
            events_json_after = Some old_file, remote_after = 0 \<rparr>"
proof -
  have h: "AIRTABLE_API_KEY (world_with None (Some (str ''app''))) = None"
    by (simp add: world_with_def)
  then have "AIRTABLE_API_KEY (world_with None (Some (str ''app''))) = None \<or>
    AIRTABLE_API_KEY (world_with None (Some (str ''app''))) = Some [] \<or>
    AIRTABLE_BASE_ID (world_with None (Some (str ''app''))) = None \<or>
    AIRTABLE_BASE_ID (world_with None (Some (str ''app''))) = Some []"
    by simp
  from script_missing_config [OF this, of utc_machine two_pages] h
  show ?thesis by (simp add: world_with_def)
qed

section \<open>The date window\<close>

text \<open>
  Claim C1, as amended. The current year and month are those of the machine's own clock
  (\<open>getFullYear\<close>, \<open>getMonth\<close>), and the threshold is the date in
  \<open>Europe/London\<close> of the machine's local midnight on the first day of the month
  before. Let the year of the clock lie between 1001 and 9999 and let, at that local
  midnight, the machine's zone be not ahead of \<open>Europe/London\<close> and less than a day
  behind it (its offset being a day at most). Then the threshold is the first day of the
  month before the current month, in the zero-padded form \<open>YYYY-MM-DD\<close>, and the
  events kept are exactly those whose date string is not smaller than the threshold,
  code unit by code unit.
\<close>

theorem prevMonthStart_local:
  fixes rt :: runtime and now :: int
  defines "f \<equiv> MakeDate (MakeDay (getFullYear rt now) (getMonth rt now - 1) 1)
                     (MakeTime 0 0 0 0)"
  assumes ahead: "LocalTZA rt f False \<le> europe_london rt (f - LocalTZA rt f False)"
    and behind: "europe_london rt (f - LocalTZA rt f False) < LocalTZA rt f False + msPerDay"
    and bound: "\<bar>LocalTZA rt f False\<bar> \<le> msPerDay"
    and yr: "1001 \<le> getFullYear rt now" "getFullYear rt now \<le> 9999"
  shows "prevMonthStart rt now =
           (if getMonth rt now = 0 then YYYY_MM_DD (getFullYear rt now - 1) 12 1
            else YYYY_MM_DD (getFullYear rt now) (getMonth rt now) 1)
         \<and> recentAndFutureEvents rt now evs =
             filter (\<lambda>e. \<not> js_less (date e) (prevMonthStart rt now)) evs"
proof -
  let ?y = "getFullYear rt now" and ?m = "getMonth rt now"
  have r: "0 \<le> ?m" "?m \<le> 11"
    using MonthFromTime_range [of "now + LocalTZA rt now True"] by (simp_all add: getMonth_def)
  have "prevMonthStart rt now =
           (if ?m = 0 then YYYY_MM_DD (?y - 1) 12 1 else YYYY_MM_DD ?y ?m 1)"
  proof (cases "?m = 0")
    case True
    have e: "new_Date_ymd rt ?y (?m - 1) 1 = new_Date_ymd rt (?y - 1) 11 1"
      using yr True by (simp add: new_Date_ymd_def MakeDay_def Let_def)
    have f: "f = MakeDate (DayFromYear (?y - 1) + DaysBeforeMonth (?y - 1) 11) 0"
      using True by (simp add: f_def MakeDay_def MakeTime_def Let_def)
    show ?thesis
      unfolding prevMonthStart_def e
      using first_of_month_in_London [of rt "?y - 1" 11] ahead behind bound yr True
      by (simp add: f)
  next
    case False
    with r have d: "(?m - 1) div 12 = 0" "(?m - 1) mod 12 = ?m - 1" by simp_all
    have f: "f = MakeDate (DayFromYear ?y + DaysBeforeMonth ?y (?m - 1)) 0"
      by (simp add: f_def MakeDay_def MakeTime_def Let_def d)
    show ?thesis
      unfolding prevMonthStart_def
      using first_of_month_in_London [of rt ?y "?m - 1"] ahead behind bound yr r False
      by (simp add: f)
  qed
  then show ?thesis by (simp add: recentAndFutureEvents_def js_ge_def)
qed

text \<open>A UTC machine with the clock at 2024-03-10T12:00:00Z. Local midnight of the first
  of February is the instant 1706745600000, where both zones are at UTC. The threshold
  is 2024-02-01, an event of 2024-01-31 is dropped and one of 2024-02-01 is kept.\<close>

theorem prevMonthStart_local_witness:
  "getFullYear utc_machine 1710072000000 = 2024 \<and>
   getMonth utc_machine 1710072000000 = 2 \<and>
   MakeDate (MakeDay 2024 1 1) (MakeTime 0 0 0 0) = 1706745600000 \<and>
   LocalTZA utc_machine 1706745600000 False = 0 \<and>
   europe_london utc_machine 1706745600000 = 0 \<and>
   prevMonthStart utc_machine 1710072000000 = str ''2024-02-01'' \<and>
   recentAndFutureEvents utc_machine 1710072000000
     [event_on ''2024-01-31'', event_on ''2024-02-01''] = [event_on ''2024-02-01'']"
proof -
  note n = noon_2024_03_10_local and m = first_of_february_2024
  have f: "YYYY_MM_DD 2024 2 1 = str ''2024-02-01''"
    by (simp add: YYYY_MM_DD_def four_digit_def two_digit_def str_def)
  note t = prevMonthStart_local [of utc_machine 1710072000000
      "[event_on ''2024-01-31'', event_on ''2024-02-01'']"]
  have h: "prevMonthStart utc_machine 1710072000000 = str ''2024-02-01'' \<and>
     recentAndFutureEvents utc_machine 1710072000000
       [event_on ''2024-01-31'', event_on ''2024-02-01''] =
     filter (\<lambda>e. \<not> js_less (date e) (prevMonthStart utc_machine 1710072000000))
       [event_on ''2024-01-31'', event_on ''2024-02-01'']"
    using t by (simp add: n m f msPerDay_def)
  then have p: "prevMonthStart utc_machine 1710072000000 = str ''2024-02-01''"
    by (rule conjunct1)
  from h have r: "recentAndFutureEvents utc_machine 1710072000000
       [event_on ''2024-01-31'', event_on ''2024-02-01''] =
     filter (\<lambda>e. \<not> js_less (date e) (prevMonthStart utc_machine 1710072000000))
       [event_on ''2024-01-31'', event_on ''2024-02-01'']"
    by (rule conjunct2)
  have e: "filter (\<lambda>e. \<not> js_less (date e) (str ''2024-02-01''))
       [event_on ''2024-01-31'', event_on ''2024-02-01''] = [event_on ''2024-02-01'']"
    by (simp add: event_on_def str_def)
  have "recentAndFutureEvents utc_machine 1710072000000
     [event_on ''2024-01-31'', event_on ''2024-02-01''] = [event_on ''2024-02-01'']"
    by (simp only: r p e)
  with n m p show ?thesis by (simp only: simp_thms)
qed

text \<open>Two runs against the claim as it stands. At 2024-06-30T23:30:00Z on a UTC machine
  London is already in July, yet the threshold is the first of May and an event of
  mid-May is kept. On a machine nine hours ahead of UTC, at 2024-03-10T12:00:00Z, the
  threshold is 2024-01-31 and an event of that day is kept.\<close>

theorem prevMonthStart_counterexample:
  "toLocaleDateString utc_machine (Some 1719790200000) = str ''2024-07-01'' \<and>
   prevMonthStart utc_machine 1719790200000 = str ''2024-05-01'' \<and>
   recentAndFutureEvents utc_machine 1719790200000 [event_on ''2024-05-15'']
     = [event_on ''2024-05-15''] \<and>
   prevMonthStart (machine (9 * msPerHour)) 1710072000000 = str ''2024-01-31'' \<and>
   recentAndFutureEvents (machine (9 * msPerHour)) 1710072000000 [event_on ''2024-01-31'']
     = [event_on ''2024-01-31'']"
  by code_simp

text \<open>
  Claim C8. The events kept are a subsequence of the events given, so any order that
  holds between the events given, such as ascending dates, holds between the events kept.
\<close>

theorem recentAndFutureEvents_order:
  "subseq (recentAndFutureEvents rt now evs) evs \<and>
   (sorted_wrt R evs \<longrightarrow> sorted_wrt R (recentAndFutureEvents rt now evs))"
  by (simp add: recentAndFutureEvents_def sorted_wrt_filter)

theorem recentAndFutureEvents_order_witness:
  "sorted_wrt (\<lambda>a b. js_ge (date b) (date a))
     [event_on ''2024-01-31'', event_on ''2024-02-01'', event_on ''2024-03-15''] \<and>
   subseq (recentAndFutureEvents utc_machine 1710072000000
             [event_on ''2024-01-31'', event_on ''2024-02-01'', event_on ''2024-03-15''])
     [event_on ''2024-01-31'', event_on ''2024-02-01'', event_on ''2024-03-15''] \<and>
   sorted_wrt (\<lambda>a b. js_ge (date b) (date a))
     (recentAndFutureEvents utc_machine 1710072000000
        [event_on ''2024-01-31'', event_on ''2024-02-01'', event_on ''2024-03-15''])"
proof -
  have s: "sorted_wrt (\<lambda>a b. js_ge (date b) (date a))
     [event_on ''2024-01-31'', event_on ''2024-02-01'', event_on ''2024-03-15'']"
    by (simp add: event_on_def js_ge_def str_def)
  from recentAndFutureEvents_order [of utc_machine 1710072000000
      "[event_on ''2024-01-31'', event_on ''2024-02-01'', event_on ''2024-03-15'']"
      "\<lambda>a b. js_ge (date b) (date a)"] s
  show ?thesis by blast
qed

section \<open>The record transformer\<close>

text \<open>
  Claim C2. The template literal of \<open>formatTime\<close> joins the two times with the three
  characters U+00E2, U+20AC, U+201C, not with the en dash U+2013: for a start at 19:30
  and an end at 21:00 (London, in winter) the result is not \<open>19:30\<close>, en dash,
  \<open>21:00\<close>. Without \<open>End\<close> the result is the start time alone.
\<close>

theorem formatTime_separator:
  "formatTime utc_machine (JStr (str ''2024-03-15T19:30:00.000Z'')) JUndefined = str ''19:30'' \<and>
   formatTime utc_machine (JStr (str ''2024-03-15T19:30:00.000Z''))
       (JStr (str ''2024-03-15T21:00:00.000Z''))
     = str ''19:30'' @ [0xE2, 0x20AC, 0x201C] @ str ''21:00'' \<and>
   formatTime utc_machine (JStr (str ''2024-03-15T19:30:00.000Z''))
       (JStr (str ''2024-03-15T21:00:00.000Z''))
     \<noteq> str ''19:30'' @ [0x2013] @ str ''21:00''"
  by code_simp

text \<open>
  Claim C6, as amended. For a record whose \<open>Type\<close> is missing, empty or otherwise
  falsy, the type of the event is \<open>show\<close>; for one whose \<open>Type\<close> is a non-empty
  string it is that string in lower case. In both cases the type is a lower-case string:
  lower-casing it again changes nothing (for a runtime on which lower-casing twice is
  lower-casing once), and if it is pure ASCII it holds no capital letter.
\<close>

theorem transformEvent_type:
  assumes idem: "\<forall>s. toLowerCase rt (toLowerCase rt s) = toLowerCase rt s"
    and ty: "\<not> truthy (lookup (rec_fields r) ''Type'') \<or>
             (\<exists>s. lookup (rec_fields r) ''Type'' = JStr s)"
  shows "\<exists>e. transformEvent rt r = Inr e \<and>
           (\<not> truthy (lookup (rec_fields r) ''Type'') \<longrightarrow> type e = str ''show'') \<and>
           (\<forall>s. lookup (rec_fields r) ''Type'' = JStr s \<and> s \<noteq> [] \<longrightarrow>
                 type e = toLowerCase rt s) \<and>
           toLowerCase rt (type e) = type e \<and>
           (list_all (\<lambda>c. c < 128) (type e) \<longrightarrow>
              list_all (\<lambda>c. \<not> (65 \<le> c \<and> c \<le> 90)) (type e))"
proof -
  let ?T = "lookup (rec_fields r) ''Type''"
  let ?ty = "case ?T of JStr s \<Rightarrow> if s = [] then str ''show'' else toLowerCase rt s
             | _ \<Rightarrow> str ''show''"
  have a: "\<not> truthy ?T \<Longrightarrow> ?ty = str ''show''"
    by (cases ?T) simp_all
  have b: "?T = JStr s \<Longrightarrow> s \<noteq> [] \<Longrightarrow> ?ty = toLowerCase rt s" for s
    by simp
  have c: "toLowerCase rt ?ty = ?ty"
    using idem by (cases ?T) (simp_all add: toLowerCase_show)
  from transformEvent_ok [OF ty, of rt] a b c fixed_no_capital [OF c]
  show ?thesis by auto
qed

theorem transformEvent_type_witness:
  "(\<forall>s. toLowerCase utc_machine (toLowerCase utc_machine s) = toLowerCase utc_machine s) \<and>
   lookup (rec_fields (page_one ! 1)) ''Type'' = JStr (str ''Workshop'') \<and>
   (\<exists>e. transformEvent utc_machine (page_one ! 1) = Inr e \<and> type e = str ''workshop'')"
proof -
  have i: "\<forall>s. toLowerCase utc_machine (toLowerCase utc_machine s) = toLowerCase utc_machine s"
    by (simp add: utc_machine_def toLowerCase_machine_idem)
  have t: "lookup (rec_fields (page_one ! 1)) ''Type'' = JStr (str ''Workshop'')"
    by (simp add: page_one_def lookup_def str_def)
  then have h: "\<not> truthy (lookup (rec_fields (page_one ! 1)) ''Type'') \<or>
             (\<exists>s. lookup (rec_fields (page_one ! 1)) ''Type'' = JStr s)"
    by simp
  have l: "toLowerCase utc_machine (str ''Workshop'') = str ''workshop''"
    by (simp add: toLowerCase_def str_def ascii_lower_def)
  have n: "str ''Workshop'' \<noteq> []" by (simp add: str_def)
  from transformEvent_type [OF i h] obtain e
    where "transformEvent utc_machine (page_one ! 1) = Inr e"
      and "\<forall>s. lookup (rec_fields (page_one ! 1)) ''Type'' = JStr s \<and> s \<noteq> [] \<longrightarrow>
                 type e = toLowerCase utc_machine s"
    by blast
  with t n l have "transformEvent utc_machine (page_one ! 1) = Inr e \<and> type e = str ''workshop''"
    by simp
  with i t show ?thesis by blast
qed

text \<open>A record whose \<open>Type\<close> is the empty string: the type is \<open>show\<close>, which is not
  the empty string lower-cased.\<close>

theorem transformEvent_type_counterexample:
  "transformEvent utc_machine
     \<lparr> record_id = str ''rec1'',
       rec_fields = [str ''Start'' \<mapsto> JStr (str ''2024-03-15T19:30:00.000Z''),
                     str ''Type'' \<mapsto> JStr []] \<rparr>
   = Inr \<lparr> date = str ''2024-03-15'', title = JStr [], venue = JStr [],
           time = str ''19:30'', type = str ''show'', url = JStr [], description = [] \<rparr> \<and>
   toLowerCase utc_machine [] = [] \<and> str ''show'' \<noteq> []"
  by code_simp

text \<open>
  Claim C7, as amended. The url of the event is \<open>Tickets URL\<close> if that is truthy
  (present and not empty), else \<open>Event URL\<close> if that is truthy, else the empty string;
  for a record with neither field it is the empty string.
\<close>

theorem transformEvent_url:
  assumes "transformEvent rt r = Inr e"
  shows "url e =
           (if truthy (lookup (rec_fields r) ''Tickets URL'') then lookup (rec_fields r) ''Tickets URL''
            else if truthy (lookup (rec_fields r) ''Event URL'') then lookup (rec_fields r) ''Event URL''
            else JStr [])
         \<and> (rec_fields r (str ''Tickets URL'') = None \<and> rec_fields r (str ''Event URL'') = None
              \<longrightarrow> url e = JStr [])"
  using transformEvent_Inr_fields [OF assms]
  by (simp add: js_or_def lookup_def)

theorem transformEvent_url_witness:
  "transformEvent utc_machine (page_two ! 0) =
     Inr \<lparr> date = str ''2024-03-15'', title = JStr [], venue = JStr [],
           time = str ''19:30'' @ range_separator @ str ''21:00'', type = str ''show'',
           url = JStr (str ''https://e.example''), description = [] \<rparr> \<and>
   lookup (rec_fields (page_two ! 0)) ''Tickets URL'' = JUndefined \<and>
   lookup (rec_fields (page_two ! 0)) ''Event URL'' = JStr (str ''https://e.example'') \<and>
   (\<exists>e. transformEvent utc_machine (page_two ! 0) = Inr e \<and>
        url e = JStr (str ''https://e.example''))"
proof -
  have h: "transformEvent utc_machine (page_two ! 0) =
     Inr \<lparr> date = str ''2024-03-15'', title = JStr [], venue = JStr [],
           time = str ''19:30'' @ range_separator @ str ''21:00'', type = str ''show'',
           url = JStr (str ''https://e.example''), description = [] \<rparr>"
    by code_simp
  have l: "lookup (rec_fields (page_two ! 0)) ''Tickets URL'' = JUndefined"
    "lookup (rec_fields (page_two ! 0)) ''Event URL'' = JStr (str ''https://e.example'')"
    by (simp_all add: page_two_def lookup_def str_def)
  from transformEvent_url [OF h] l h show ?thesis by simp
qed

text \<open>A record with an empty \<open>Tickets URL\<close> and an \<open>Event URL\<close>: the url is the
  \<open>Event URL\<close>, not the \<open>Tickets URL\<close> that is present.\<close>

theorem transformEvent_url_counterexample:
  "transformEvent utc_machine
     \<lparr> record_id = str ''rec1'',
       rec_fields = [str ''Start'' \<mapsto> JStr (str ''2024-03-15T19:30:00.000Z''),
                     str ''Tickets URL'' \<mapsto> JStr [],
                     str ''Event URL'' \<mapsto> JStr (str ''https://e.example'')] \<rparr>
   = Inr \<lparr> date = str ''2024-03-15'', title = JStr [], venue = JStr [],
           time = str ''19:30'', type = str ''show'',
           url = JStr (str ''https://e.example''), description = [] \<rparr>"
  by code_simp

text \<open>
  Claim C9. A falsy value of \<open>Type\<close>, \<open>Title\<close>, \<open>Venue\<close>, \<open>Tickets URL\<close> or
  \<open>Event URL\<close>, the empty string among them, gives the event that the record without
  that field gives. So an empty \<open>Type\<close> gives the type \<open>show\<close>, an empty
  \<open>Tickets URL\<close> gives the \<open>Event URL\<close> or else the empty string, and an empty
  \<open>Title\<close> or \<open>Venue\<close> stays empty.
\<close>

theorem transformEvent_empty_string:
  "(\<forall>k v. k \<in> set [''Type'', ''Title'', ''Venue'', ''Tickets URL'', ''Event URL''] \<and> \<not> truthy v \<longrightarrow>
      transformEvent rt (r\<lparr>rec_fields := (rec_fields r)(str k \<mapsto> v)\<rparr>) =
      transformEvent rt (r\<lparr>rec_fields := (rec_fields r)(str k := None)\<rparr>)) \<and>
   (lookup (rec_fields r) ''Type'' = JStr [] \<longrightarrow>
      (\<exists>e. transformEvent rt r = Inr e \<and> type e = str ''show'')) \<and>
   (\<forall>e. transformEvent rt r = Inr e \<longrightarrow>
      (lookup (rec_fields r) ''Tickets URL'' = JStr [] \<longrightarrow>
         url e = (if truthy (lookup (rec_fields r) ''Event URL'')
                  then lookup (rec_fields r) ''Event URL'' else JStr [])) \<and>
      (lookup (rec_fields r) ''Title'' = JStr [] \<longrightarrow> title e = JStr []) \<and>
      (lookup (rec_fields r) ''Venue'' = JStr [] \<longrightarrow> venue e = JStr []))"
proof (intro conjI allI impI)
  fix k v
  assume "k \<in> set [''Type'', ''Title'', ''Venue'', ''Tickets URL'', ''Event URL''] \<and> \<not> truthy v"
  then show "transformEvent rt (r\<lparr>rec_fields := (rec_fields r)(str k \<mapsto> v)\<rparr>) =
      transformEvent rt (r\<lparr>rec_fields := (rec_fields r)(str k := None)\<rparr>)"
    using falsy_as_absent by blast
next
  assume t: "lookup (rec_fields r) ''Type'' = JStr []"
  then have "\<not> truthy (lookup (rec_fields r) ''Type'') \<or>
             (\<exists>s. lookup (rec_fields r) ''Type'' = JStr s)" by simp
  from transformEvent_ok [OF this, of rt] t
  show "\<exists>e. transformEvent rt r = Inr e \<and> type e = str ''show''" by simp
next
  fix e
  assume e: "transformEvent rt r = Inr e" and "lookup (rec_fields r) ''Tickets URL'' = JStr []"
  with transformEvent_Inr_fields [OF e]
  show "url e = (if truthy (lookup (rec_fields r) ''Event URL'')
                  then lookup (rec_fields r) ''Event URL'' else JStr [])"
    by (simp add: js_or_def)
next
  fix e
  assume e: "transformEvent rt r = Inr e" and "lookup (rec_fields r) ''Title'' = JStr []"
  with transformEvent_Inr_fields [OF e] show "title e = JStr []" by (simp add: js_or_def)
next
  fix e
  assume e: "transformEvent rt r = Inr e" and "lookup (rec_fields r) ''Venue'' = JStr []"
  with transformEvent_Inr_fields [OF e] show "venue e = JStr []" by (simp add: js_or_def)
qed
theorem transformEvent_empty_string_witness:
  "lookup (rec_fields empty_fields) ''Type'' = JStr [] \<and>
   lookup (rec_fields empty_fields) ''Title'' = JStr [] \<and>
   lookup (rec_fields empty_fields) ''Tickets URL'' = JStr [] \<and>
   lookup (rec_fields empty_fields) ''Event URL'' = JStr (str ''https://e.example'') \<and>
   (\<exists>e. transformEvent utc_machine empty_fields = Inr e \<and> type e = str ''show'' \<and>
        title e = JStr [] \<and> url e = JStr (str ''https://e.example''))"
proof -
  note l = empty_fields_lookups
  note t = transformEvent_empty_string [of utc_machine empty_fields]
  from t l(1) obtain e where e: "transformEvent utc_machine empty_fields = Inr e"
    and ty: "type e = str ''show''" by blast
  from t e l have "title e = JStr []" by blast
  moreover from t e l have "url e = JStr (str ''https://e.example'')"
    by (auto simp add: str_def)
  ultimately show ?thesis using l e ty by blast
qed

text \<open>
  Claim C10, as amended. For a record without \<open>Start\<close> whose \<open>Type\<close> is missing,
  falsy or a string, the transformer raises nothing: the date of the event is
  \<open>Invalid Date\<close>, its time is \<open>Invalid Date\<close>, followed by the separator and the end
  time when \<open>End\<close> is truthy, and the event passes the date window whatever the clock
  reads.
\<close>

theorem transformEvent_without_Start:
  assumes start: "rec_fields r (str ''Start'') = None"
    and ty: "\<not> truthy (lookup (rec_fields r) ''Type'') \<or>
             (\<exists>s. lookup (rec_fields r) ''Type'' = JStr s)"
  shows "\<exists>e. transformEvent rt r = Inr e \<and>
             date e = str ''Invalid Date'' \<and>
             time e =
               (if truthy (lookup (rec_fields r) ''End'')
                then str ''Invalid Date'' @ range_separator @
                     toLocaleTimeString rt (new_Date rt (lookup (rec_fields r) ''End''))
                else str ''Invalid Date'') \<and>
             map_transformEvent rt [r] = Inr [e] \<and>
             recentAndFutureEvents rt now [e] = [e]"
proof -
  have s: "lookup (rec_fields r) ''Start'' = JUndefined"
    using start by (simp add: lookup_def)
  have d: "formatDate rt JUndefined = str ''Invalid Date''"
    by (simp add: formatDate_def toLocaleDateString_def)
  have t: "formatTime rt JUndefined v =
             (if truthy v
              then str ''Invalid Date'' @ range_separator @ toLocaleTimeString rt (new_Date rt v)
              else str ''Invalid Date'')" for v
    by (simp add: formatTime_def toLocaleTimeString_def)
  have g: "js_ge (str ''Invalid Date'') (prevMonthStart rt now)"
    unfolding prevMonthStart_def by (rule Invalid_Date_ge)
  show ?thesis
    by (simp add: transformEvent_ok [OF ty] s d t recentAndFutureEvents_def g)
qed

theorem transformEvent_without_Start_witness:
  "rec_fields no_start (str ''Start'') = None \<and>
   lookup (rec_fields no_start) ''Type'' = JUndefined \<and>
   lookup (rec_fields no_start) ''End'' = JUndefined \<and>
   (\<exists>e. transformEvent utc_machine no_start = Inr e \<and>
        date e = str ''Invalid Date'' \<and> time e = str ''Invalid Date'' \<and>
        map_transformEvent utc_machine [no_start] = Inr [e] \<and>
        recentAndFutureEvents utc_machine 1710072000000 [e] = [e])"
proof -
  have s: "rec_fields no_start (str ''Start'') = None"
    by (simp add: no_start_def str_def)
  have l: "lookup (rec_fields no_start) ''Type'' = JUndefined"
    "lookup (rec_fields no_start) ''End'' = JUndefined"
    by (simp_all add: no_start_def lookup_def str_def)
  then have t: "\<not> truthy (lookup (rec_fields no_start) ''Type'') \<or>
             (\<exists>s. lookup (rec_fields no_start) ''Type'' = JStr s)"
    by simp
  from transformEvent_without_Start [OF s t, of utc_machine 1710072000000] s l
  show ?thesis by simp
qed

text \<open>A record without \<open>Start\<close> whose \<open>Type\<close> is the number 5: the transformer
  raises a \<open>TypeError\<close>, and a run that fetches this record ends with exit status 1 and
  leaves the file as it was.\<close>

theorem transformEvent_without_Start_counterexample:
  "rec_fields numeric_type (str ''Start'') = None \<and>
   transformEvent utc_machine numeric_type = Inl TypeError \<and>
   script utc_machine numeric_type_page (world_with (Some (str ''key'')) (Some (str ''app''))) =
     Some \<lparr> exit_status = 1, error_stream = [ExportFailed TypeError],
            requests = [make_request (str ''key'') (str ''app'') None],
            events_json_after = Some old_file, remote_after = 1 \<rparr>"
proof -
  have s: "rec_fields numeric_type (str ''Start'') = None"
    by (simp add: numeric_type_def str_def)
  have t: "transformEvent utc_machine numeric_type = Inl TypeError"
    by (simp add: transformEvent_def lookup_def numeric_type_def str_def js_or_def)
  have k: "token_truthy (Some (str ''key''))" "token_truthy (Some (str ''app''))"
    by (simp_all add: token_truthy_def str_def)
  have f: "fetchApprovedEvents numeric_type_page (str ''key'') (str ''app'') 0 =
           Some (Inr [numeric_type], 1, [make_request (str ''key'') (str ''app'') None])"
    unfolding fetchApprovedEvents_def
    by (subst fetch_pages.simps)
       (simp add: numeric_type_page_def response_ok_def token_truthy_def)
  from s t show ?thesis
    by (simp add: script_def main_def world_with_def k f)
qed

section \<open>A complete run\<close>

text \<open>The remote end \<open>two_pages\<close>, the clock at 2024-03-10T12:00:00Z on a UTC machine:
  two requests, exit status 0, and the file holds the events from 2024-02-01 on.\<close>

lemma fetch_two_pages:
  "fetchApprovedEvents two_pages (str ''key'') (str ''app'') 0 =
     Some (Inr (page_one @ page_two), 2,
           [make_request (str ''key'') (str ''app'') None,
            make_request (str ''key'') (str ''app'') (Some (str ''itr1''))])"
proof -
  have a: "two_pages 0 (make_request (str ''key'') (str ''app'') None) =
           (Response 200 (Data page_one (Some (str ''itr1''))), 1)"
    by (simp add: two_pages_def has_offset_def make_request_def str_def)
  have b: "two_pages (Suc 0) (make_request (str ''key'') (str ''app'') (Some (str ''itr1''))) =
           (Response 200 (Data page_two None), 2)"
    by (simp add: two_pages_def has_offset_def make_request_def str_def)
  have c: "token_truthy (Some (str ''itr1''))" "\<not> token_truthy None" "response_ok 200"
    by (simp_all add: token_truthy_def response_ok_def str_def)
  have "fetchApprovedEvents two_pages (str ''key'') (str ''app'') 0 =
        fetch_pages two_pages (str ''key'') (str ''app'') 1
          [make_request (str ''key'') (str ''app'') None] page_one (Some (str ''itr1''))"
    unfolding fetchApprovedEvents_def by (subst fetch_pages.simps) (simp add: a c)
  also have "\<dots> = Some (Inr (page_one @ page_two), 2,
           [make_request (str ''key'') (str ''app'') None,
            make_request (str ''key'') (str ''app'') (Some (str ''itr1''))])"
    by (subst fetch_pages.simps) (simp add: b c)
  finally show ?thesis .
qed

lemma transform_two_pages:
  "map_transformEvent utc_machine (page_one @ page_two) =
     Inr [\<lparr> date = str ''2024-01-31'', title = JStr (str ''Jam''), venue = JStr [],
             time = str ''19:30'', type = str ''show'', url = JStr [], description = [] \<rparr>,
          \<lparr> date = str ''2024-02-01'', title = JStr [], venue = JStr [],
             time = str ''19:30'' @ range_separator @ str ''21:00'',
             type = str ''workshop'', url = JStr [], description = [] \<rparr>,
          \<lparr> date = str ''2024-03-15'', title = JStr [], venue = JStr [],
             time = str ''19:30'' @ range_separator @ str ''21:00'',
             type = str ''show'', url = JStr (str ''https://e.example''),
             description = [] \<rparr>]"
  by code_simp

lemma threshold_2024_03_10: "prevMonthStart utc_machine 1710072000000 = str ''2024-02-01''"
  by code_simp

lemma script_two_pages:
  "script utc_machine two_pages (world_with (Some (str ''key'')) (Some (str ''app''))) =
     Some \<lparr> exit_status = 0, error_stream = [],
            requests = [make_request (str ''key'') (str ''app'') None,
                        make_request (str ''key'') (str ''app'') (Some (str ''itr1''))],
            events_json_after =
              Some \<lparr> lastUpdated = 1710072000500,
                     events =
                       [\<lparr> date = str ''2024-02-01'', title = JStr [], venue = JStr [],
                          time = str ''19:30'' @ range_separator @ str ''21:00'',
                          type = str ''workshop'', url = JStr [], description = [] \<rparr>,
                        \<lparr> date = str ''2024-03-15'', title = JStr [], venue = JStr [],
                          time = str ''19:30'' @ range_separator @ str ''21:00'',
                          type = str ''show'', url = JStr (str ''https://e.example''),
                          description = [] \<rparr>] \<rparr>,
            remote_after = 2 \<rparr>"
proof -
  have k: "token_truthy (Some (str ''key''))" "token_truthy (Some (str ''app''))"
    by (simp_all add: token_truthy_def str_def)
  have d: "js_less (str ''2024-01-31'') (str ''2024-02-01'')"
    "\<not> js_less (str ''2024-02-01'') (str ''2024-02-01'')"
    "\<not> js_less (str ''2024-03-15'') (str ''2024-02-01'')"
    by (simp_all add: str_def)
  show ?thesis
    by (simp add: script_def main_def world_with_def k fetch_two_pages transform_two_pages
        recentAndFutureEvents_def threshold_2024_03_10 js_ge_def d)
qed

end
